theory Spec2Isabelle
  imports Main "HOL-Library.Sublist"
begin

section \<open>JavaScript values used by \<open>src/lib/calendar.ts\<close>\<close>

text \<open>
  An optional string (\<open>string | null | undefined\<close>) is a \<open>string option\<close>. JavaScript
  treats \<open>null\<close>, \<open>undefined\<close> and the empty string as false in a condition; every other
  string is true.
\<close>

definition truthy :: "string option \<Rightarrow> bool" where
  "truthy v = (case v of None \<Rightarrow> False | Some s \<Rightarrow> s \<noteq> [])"

text \<open>\<open>s.includes(pat)\<close>: \<open>pat\<close> occurs in \<open>s\<close> as a contiguous, case-sensitive substring.\<close>

fun str_includes :: "string \<Rightarrow> string \<Rightarrow> bool" where
  "str_includes [] pat = (pat = [])"
| "str_includes (c # cs) pat = (prefix pat (c # cs) \<or> str_includes cs pat)"

text \<open>
  \<open>error.code\<close> and \<open>error.status\<close> are compared with \<open>===\<close> against a number, so a
  string such as \<open>'401'\<close> or a missing property is different from the number 401.
\<close>

datatype jsval = JUndefined | JNum int | JStr string

text \<open>
  A thrown value as the \<open>catch\<close> blocks read it: \<open>error.message\<close>, \<open>error.code\<close>,
  \<open>error.status\<close> and \<open>error.response?.data?.error?.message\<close>.
\<close>

record js_error =
  message :: "string option"
  code :: jsval
  status :: jsval
  response_message :: "string option"

text \<open>\<open>new Error(msg)\<close>: only the message is set.\<close>

definition new_Error :: "string \<Rightarrow> js_error" where
  "new_Error msg = \<lparr>message = Some msg, code = JUndefined, status = JUndefined,
                    response_message = None\<rparr>"

text \<open>A value inside a template literal: \<open>undefined\<close> prints as the word \<open>undefined\<close>.\<close>

definition template :: "string option \<Rightarrow> string" where
  "template v = (case v of None \<Rightarrow> ''undefined'' | Some s \<Rightarrow> s)"

section \<open>The credential store\<close>

type_synonym time = nat

text \<open>
  Modelled from the spec: the \<open>accounts\<close> table of \<open>src/db/schema.ts\<close>, which is not part of
  the sources at hand. A row is the Credential Record: the owning user, the access token,
  the optional refresh token, the granted scope string and the last-updated timestamp. The
  columns are the ones \<open>calendar.ts\<close> reads and writes.
\<close>

record account =
  userId :: string
  accessToken :: "string option"
  refreshToken :: "string option"
  scope :: "string option"
  updatedAt :: time

text \<open>\<open>db.select().from(accounts).where(eq(accounts.userId, userId)).limit(1)\<close>\<close>

definition select_account :: "account list \<Rightarrow> string \<Rightarrow> account list" where
  "select_account db uid = take 1 (filter (\<lambda>a. userId a = uid) db)"

text \<open>
  \<open>db.update(accounts).set({...}).where(eq(accounts.userId, userId))\<close>: the object given to
  \<open>set\<close> names the columns to overwrite; a column that is not named keeps its value.
\<close>

record db_update =
  where_userId :: string
  set_accessToken :: "string option"
  set_refreshToken :: "string option"
  set_updatedAt :: "time option"

text \<open>
  Modelled from the spec: the effect of one update statement on the table (the store's
  \<open>update(userIdentity, partialFields, timestamp)\<close>); the \<open>db\<close> module is not part of the
  sources at hand.
\<close>

definition apply_update :: "db_update \<Rightarrow> account list \<Rightarrow> account list" where
  "apply_update u db =
     map (\<lambda>a. if userId a = where_userId u
              then a\<lparr>accessToken := (case set_accessToken u of None \<Rightarrow> accessToken a
                                      | Some t \<Rightarrow> Some t),
                     refreshToken := (case set_refreshToken u of None \<Rightarrow> refreshToken a
                                      | Some t \<Rightarrow> Some t),
                     updatedAt := (case set_updatedAt u of None \<Rightarrow> updatedAt a
                                   | Some t \<Rightarrow> t)\<rparr>
              else a) db"

section \<open>\<open>getCalendarClient\<close>\<close>

text \<open>
  The handle that \<open>google.calendar({version: 'v3', auth: oauth2Client})\<close> returns: the
  credentials given to \<open>setCredentials\<close> and the user whose row the \<open>tokens\<close> observer
  writes.
\<close>

record calendar_client =
  client_access_token :: string
  client_refresh_token :: "string option"
  observer_userId :: string

definition getCalendarClient :: "account list \<Rightarrow> string \<Rightarrow> js_error + calendar_client" where
  "getCalendarClient db uid =
     (case select_account db uid of
        [] \<Rightarrow> Inl (new_Error ''No Google account linked'')
      | account # _ \<Rightarrow>
          (case accessToken account of
             None \<Rightarrow> Inl (new_Error ''No access token found. Please sign in again.'')
           | Some tok \<Rightarrow>
               if tok = [] then Inl (new_Error ''No access token found. Please sign in again.'')
               else if (case scope account of
                          None \<Rightarrow> False
                        | Some sc \<Rightarrow> sc \<noteq> [] \<and> \<not> str_includes sc ''calendar.readonly''
                                              \<and> \<not> str_includes sc ''calendar.events'')
               then Inl (new_Error ''Calendar permissions not granted. Please sign out and sign in again to grant calendar access.'')
               else Inr \<lparr>client_access_token = tok,
                         client_refresh_token = refreshToken account,
                         observer_userId = uid\<rparr>))"

text \<open>
  The observer registered with \<open>oauth2Client.on('tokens', ...)\<close>. It is an \<open>async\<close>
  function of the \<open>tokens\<close> object that the transport emits, and the transport keeps
  that object and may go on writing to it. The observer tests \<open>tokens.access_token\<close> and
  builds the first write when the event is emitted; \<open>await db.update(...)\<close> then suspends
  it, and it tests \<open>tokens.refresh_token\<close> only when it resumes. So \<open>toks\<close> is the
  object as emitted and \<open>toks_resumed\<close> the object as it is when the observer resumes
  after the first write. Without a first write nothing suspends the observer, and the
  second test reads the object as emitted. \<open>now1\<close> and \<open>now2\<close> are what \<open>new Date()\<close>
  returns when the first and the second write are built. The store is taken to accept
  every write.
\<close>

record tokens =
  access_token :: "string option"
  refresh_token :: "string option"

definition tokens_handler ::
  "string \<Rightarrow> tokens \<Rightarrow> tokens \<Rightarrow> time \<Rightarrow> time \<Rightarrow> db_update list" where
  "tokens_handler uid toks toks_resumed now1 now2 =
     (if truthy (access_token toks)
      then [\<lparr>where_userId = uid, set_accessToken = access_token toks,
             set_refreshToken = None, set_updatedAt = Some now1\<rparr>]
           @ (if truthy (refresh_token toks_resumed)
              then [\<lparr>where_userId = uid, set_accessToken = None,
                     set_refreshToken = refresh_token toks_resumed, set_updatedAt = Some now2\<rparr>]
              else [])
      else (if truthy (refresh_token toks)
            then [\<lparr>where_userId = uid, set_accessToken = None,
                   set_refreshToken = refresh_token toks, set_updatedAt = Some now2\<rparr>]
            else []))"

text \<open>The store after the observer has run.\<close>

definition on_tokens ::
  "string \<Rightarrow> tokens \<Rightarrow> tokens \<Rightarrow> time \<Rightarrow> time \<Rightarrow> account list \<Rightarrow> account list" where
  "on_tokens uid toks toks_resumed now1 now2 db =
     fold apply_update (tokens_handler uid toks toks_resumed now1 now2) db"

section \<open>The remote provider\<close>

text \<open>
  The calendar descriptor and the event as the provider returns them. \<open>calendarId\<close> is
  not a field of the provider's event: \<open>getEvents\<close> writes it.
\<close>

record calendar =
  cal_id :: string
  cal_summary :: "string option"
  cal_primary :: "bool option"
  accessRole :: "string option"

type_synonym event_time = "string \<times> string option"

record event =
  event_id :: string
  summary :: "string option"
  description :: "string option"
  start_time :: "event_time option"
  end_time :: "event_time option"
  attendees :: "string list option"
  event_status :: "string option"
  calendarId :: "string option"

text \<open>The argument of \<open>calendar.events.list\<close>: \<open>{...queryParams, pageToken}\<close>.\<close>

record list_req =
  req_calendarId :: string
  timeMin :: string
  timeMax :: "string option"
  maxResults :: nat
  singleEvents :: bool
  orderBy :: string
  pageToken :: "string option"

text \<open>\<open>response.data\<close> of \<open>calendar.events.list\<close>.\<close>

record page =
  items :: "event list option"
  nextPageToken :: "string option"

text \<open>The request body of \<open>createEvent\<close> and the partial one of \<open>updateEvent\<close>.\<close>

record event_draft =
  draft_summary :: string
  draft_description :: "string option"
  draft_start :: event_time
  draft_end :: event_time
  draft_attendees :: "string list option"

record partial_draft =
  new_summary :: "string option"
  new_description :: "string option"
  new_start :: "event_time option"
  new_end :: "event_time option"
  new_attendees :: "string list option"

text \<open>
  The provider is outside the repository, so it is a parameter: one function for each
  remote call that \<open>calendar.ts\<close> makes, over a remote state \<open>'p\<close>. Each call is made
  through the client handle. A call either rejects (\<open>Inl\<close>) or resolves. The two reading
  calls leave the remote state as it is; the three writing calls return the new one.
\<close>

record 'p provider =
  calendarList_list :: "calendar_client \<Rightarrow> 'p \<Rightarrow> js_error + calendar list option"
  events_list :: "calendar_client \<Rightarrow> 'p \<Rightarrow> list_req \<Rightarrow> js_error + page"
  events_insert :: "calendar_client \<Rightarrow> 'p \<Rightarrow> string \<Rightarrow> event_draft \<Rightarrow> 'p \<times> (js_error + event)"
  events_update :: "calendar_client \<Rightarrow> 'p \<Rightarrow> string \<Rightarrow> string \<Rightarrow> partial_draft \<Rightarrow> 'p \<times> (js_error + event)"
  events_delete :: "calendar_client \<Rightarrow> 'p \<Rightarrow> string \<Rightarrow> string \<Rightarrow> 'p \<times> (js_error + unit)"

text \<open>The remote reading calls a run has issued, in order.\<close>

datatype request = CalendarListList | EventsList list_req

section \<open>\<open>listCalendars\<close>\<close>

definition listCalendars ::
  "account list \<Rightarrow> 'p provider \<Rightarrow> 'p \<Rightarrow> string \<Rightarrow> request list \<times> (js_error + calendar list)" where
  "listCalendars db P s uid =
     (case getCalendarClient db uid of
        Inl error \<Rightarrow>
          ([], Inl (new_Error (''Failed to fetch calendar list: '' @ template (message error))))
      | Inr client \<Rightarrow>
          (case calendarList_list P client s of
             Inl error \<Rightarrow>
               ([CalendarListList],
                Inl (new_Error (''Failed to fetch calendar list: '' @ template (message error))))
           | Inr response_items \<Rightarrow>
               ([CalendarListList],
                Inr (case response_items of None \<Rightarrow> [] | Some calendars \<Rightarrow> calendars))))"

section \<open>\<open>getEvents\<close>\<close>

text \<open>
  \<open>response.data.items ?? []\<close> with \<open>item.calendarId = calId\<close> written into every item.
\<close>

definition tag_items :: "string \<Rightarrow> page \<Rightarrow> event list" where
  "tag_items calId response =
     map (\<lambda>item. item\<lparr>calendarId := Some calId\<rparr>)
         (case items response of None \<Rightarrow> [] | Some xs \<Rightarrow> xs)"

text \<open>
  The \<open>do ... while (pageToken)\<close> loop for one calendar. \<open>lst\<close> is
  \<open>calendar.events.list\<close> on the resolved client, \<open>log\<close> the requests issued so far and
  \<open>allItems\<close> the array shared by all calendars. The loop has no bound: a provider that
  always returns a continuation token keeps it running, which is the value \<open>None\<close>.
\<close>

partial_function (option) fetch_pages ::
  "(list_req \<Rightarrow> js_error + page) \<Rightarrow> list_req \<Rightarrow> string option \<Rightarrow> request list \<Rightarrow> event list
     \<Rightarrow> (request list \<times> (js_error + event list)) option" where
  "fetch_pages lst queryParams tok log allItems =
     (case lst (queryParams\<lparr>pageToken := tok\<rparr>) of
        Inl error \<Rightarrow> Some (log @ [EventsList (queryParams\<lparr>pageToken := tok\<rparr>)], Inl error)
      | Inr response \<Rightarrow>
          if truthy (nextPageToken response)
          then fetch_pages lst queryParams (nextPageToken response)
                 (log @ [EventsList (queryParams\<lparr>pageToken := tok\<rparr>)])
                 (allItems @ tag_items (req_calendarId queryParams) response)
          else Some (log @ [EventsList (queryParams\<lparr>pageToken := tok\<rparr>)],
                     Inr (allItems @ tag_items (req_calendarId queryParams) response)))"

text \<open>
  \<open>queryParams\<close> for one calendar. \<open>timeMin || new Date().toISOString()\<close> is evaluated in
  every iteration of the \<open>for\<close> loop; \<open>now k\<close> is the clock reading of iteration \<open>k\<close>.
\<close>

definition queryParams_of :: "(nat \<Rightarrow> string) \<Rightarrow> nat \<Rightarrow> string option \<Rightarrow> string option \<Rightarrow> string \<Rightarrow> list_req" where
  "queryParams_of now k tmin tmax calId =
     \<lparr>req_calendarId = calId,
      timeMin = (case tmin of None \<Rightarrow> now k | Some t \<Rightarrow> if t = [] then now k else t),
      timeMax = tmax,
      maxResults = 250,
      singleEvents = True,
      orderBy = ''startTime'',
      pageToken = None\<rparr>"

text \<open>The \<open>for (const calId of calendarIds)\<close> loop; \<open>k\<close> counts its iterations.\<close>

fun for_calendarIds ::
  "(list_req \<Rightarrow> js_error + page) \<Rightarrow> (nat \<Rightarrow> string) \<Rightarrow> string option \<Rightarrow> string option \<Rightarrow> nat
     \<Rightarrow> string list \<Rightarrow> request list \<Rightarrow> event list
     \<Rightarrow> (request list \<times> (js_error + event list)) option" where
  "for_calendarIds lst now tmin tmax k [] log allItems = Some (log, Inr allItems)"
| "for_calendarIds lst now tmin tmax k (calId # rest) log allItems =
     (case fetch_pages lst (queryParams_of now k tmin tmax calId) None log allItems of
        None \<Rightarrow> None
      | Some (log', Inl error) \<Rightarrow> Some (log', Inl error)
      | Some (log', Inr allItems') \<Rightarrow> for_calendarIds lst now tmin tmax (Suc k) rest log' allItems')"

text \<open>
  The parameter \<open>calendarId?: string | string[]\<close>. In \<open>if (calendarId)\<close> a missing value
  and the empty string are false; every array, the empty one too, is true.
\<close>

datatype calendar_arg = Single string | Multiple "string list"

definition select_calendarIds ::
  "account list \<Rightarrow> 'p provider \<Rightarrow> 'p \<Rightarrow> string \<Rightarrow> calendar_arg option
     \<Rightarrow> request list \<times> (js_error + string list)" where
  "select_calendarIds db P s uid arg =
     (let all_calendars =
            (case listCalendars db P s uid of
               (log, Inl error) \<Rightarrow> (log, Inl error)
             | (log, Inr calendars) \<Rightarrow> (log, Inr (map cal_id calendars)))
      in case arg of
           None \<Rightarrow> all_calendars
         | Some (Single c) \<Rightarrow> if c = [] then all_calendars else ([], Inr [c])
         | Some (Multiple cs) \<Rightarrow> ([], Inr cs))"

text \<open>The \<open>try\<close> block of \<open>getEvents\<close>: what it returns or throws, with the requests issued.\<close>

definition getEvents_try ::
  "account list \<Rightarrow> 'p provider \<Rightarrow> 'p \<Rightarrow> (nat \<Rightarrow> string) \<Rightarrow> string \<Rightarrow> string option \<Rightarrow> string option
     \<Rightarrow> calendar_arg option \<Rightarrow> (request list \<times> (js_error + event list)) option" where
  "getEvents_try db P s now uid tmin tmax arg =
     (case getCalendarClient db uid of
        Inl error \<Rightarrow> Some ([], Inl error)
      | Inr client \<Rightarrow>
          (case select_calendarIds db P s uid arg of
             (log, Inl error) \<Rightarrow> Some (log, Inl error)
           | (log, Inr calendarIds) \<Rightarrow>
               for_calendarIds (events_list P client s) now tmin tmax 0 calendarIds log []))"

text \<open>The \<open>catch\<close> block of \<open>getEvents\<close>: the error it throws for the error it caught.\<close>

definition is_status :: "int \<Rightarrow> js_error \<Rightarrow> bool" where
  "is_status n error = (code error = JNum n \<or> status error = JNum n)"

definition errorMessage_of :: "js_error \<Rightarrow> string option" where
  "errorMessage_of error =
     (if truthy (response_message error) then response_message error else message error)"

definition msg_includes :: "string option \<Rightarrow> string \<Rightarrow> bool" where
  "msg_includes m pat = (case m of None \<Rightarrow> False | Some s \<Rightarrow> str_includes s pat)"

definition classify :: "js_error \<Rightarrow> js_error" where
  "classify error =
     (if is_status 401 error
      then new_Error ''Google Calendar authentication expired. Please sign out and sign in again.''
      else if is_status 403 error
      then (let errorMessage = errorMessage_of error in
            if msg_includes errorMessage ''Calendar API has not been used''
               \<or> msg_includes errorMessage ''has not been enabled''
            then new_Error ''Google Calendar API is not enabled in your Google Cloud Console. Please enable it at https://console.cloud.google.com/apis/library/calendar-json.googleapis.com''
            else if msg_includes errorMessage ''insufficient'' \<or> msg_includes errorMessage ''scope''
            then new_Error ''Insufficient permissions for Google Calendar. Please sign out and sign in again to grant calendar access.''
            else new_Error (''Google Calendar access denied. '' @
                   (if truthy errorMessage then template errorMessage
                    else ''Please ensure Calendar API is enabled in Google Cloud Console and you have granted calendar permissions.'')))
      else if is_status 429 error
      then new_Error ''Google Calendar API rate limit exceeded. Please try again later.''
      else new_Error (''Failed to fetch calendar events: '' @ template (message error)))"

definition getEvents ::
  "account list \<Rightarrow> 'p provider \<Rightarrow> 'p \<Rightarrow> (nat \<Rightarrow> string) \<Rightarrow> string \<Rightarrow> string option \<Rightarrow> string option
     \<Rightarrow> calendar_arg option \<Rightarrow> (request list \<times> (js_error + event list)) option" where
  "getEvents db P s now uid tmin tmax arg =
     (case getEvents_try db P s now uid tmin tmax arg of
        None \<Rightarrow> None
      | Some (log, Inl error) \<Rightarrow> Some (log, Inl (classify error))
      | Some (log, Inr allItems) \<Rightarrow> Some (log, Inr allItems))"

section \<open>\<open>createEvent\<close>, \<open>updateEvent\<close>, \<open>deleteEvent\<close>\<close>

text \<open>
  None of the three has a \<open>try\<close>: what \<open>getCalendarClient\<close> or the remote call throws is
  what the caller gets. Each returns the remote state after the call.
\<close>

definition createEvent ::
  "account list \<Rightarrow> 'p provider \<Rightarrow> 'p \<Rightarrow> string \<Rightarrow> event_draft \<Rightarrow> 'p \<times> (js_error + event)" where
  "createEvent db P s uid ev =
     (case getCalendarClient db uid of
        Inl error \<Rightarrow> (s, Inl error)
      | Inr client \<Rightarrow> events_insert P client s ''primary'' ev)"

definition updateEvent ::
  "account list \<Rightarrow> 'p provider \<Rightarrow> 'p \<Rightarrow> string \<Rightarrow> string \<Rightarrow> partial_draft \<Rightarrow> 'p \<times> (js_error + event)" where
  "updateEvent db P s uid eventId ev =
     (case getCalendarClient db uid of
        Inl error \<Rightarrow> (s, Inl error)
      | Inr client \<Rightarrow> events_update P client s ''primary'' eventId ev)"

definition deleteEvent ::
  "account list \<Rightarrow> 'p provider \<Rightarrow> 'p \<Rightarrow> string \<Rightarrow> string \<Rightarrow> 'p \<times> (js_error + bool)" where
  "deleteEvent db P s uid eventId =
     (case getCalendarClient db uid of
        Inl error \<Rightarrow> (s, Inl error)
      | Inr client \<Rightarrow>
          (case events_delete P client s ''primary'' eventId of
             (s', Inl error) \<Rightarrow> (s', Inl error)
           | (s', Inr _) \<Rightarrow> (s', Inr True)))"

section \<open>The vocabulary of the specification\<close>

text \<open>
  The error kinds of the specification are the errors that the code builds with
  \<open>new Error\<close>; the names are the specification's, the messages the code's.
\<close>

definition NoLinkedAccount :: js_error where
  "NoLinkedAccount = new_Error ''No Google account linked''"

definition MissingAccessToken :: js_error where
  "MissingAccessToken = new_Error ''No access token found. Please sign in again.''"

definition InsufficientScope :: js_error where
  "InsufficientScope = new_Error ''Calendar permissions not granted. Please sign out and sign in again to grant calendar access.''"

definition AuthExpired :: js_error where
  "AuthExpired = new_Error ''Google Calendar authentication expired. Please sign out and sign in again.''"

definition ApiNotEnabled :: js_error where
  "ApiNotEnabled = new_Error ''Google Calendar API is not enabled in your Google Cloud Console. Please enable it at https://console.cloud.google.com/apis/library/calendar-json.googleapis.com''"

definition InsufficientPermission :: js_error where
  "InsufficientPermission = new_Error ''Insufficient permissions for Google Calendar. Please sign out and sign in again to grant calendar access.''"

definition RateLimited :: js_error where
  "RateLimited = new_Error ''Google Calendar API rate limit exceeded. Please try again later.''"

definition AccessDenied :: "string \<Rightarrow> js_error" where
  "AccessDenied echoed = new_Error (''Google Calendar access denied. '' @ echoed)"

definition UpstreamFailure :: "string \<Rightarrow> js_error" where
  "UpstreamFailure echoed = new_Error (''Failed to fetch calendar events: '' @ echoed)"

text \<open>An error is classified when it is one of the six kinds.\<close>

definition is_classified :: "js_error \<Rightarrow> bool" where
  "is_classified error =
     (error = AuthExpired \<or> error = ApiNotEnabled \<or> error = InsufficientPermission
      \<or> error = RateLimited
      \<or> (case message error of
            None \<Rightarrow> False
          | Some m \<Rightarrow> error = new_Error m
                     \<and> (prefix ''Google Calendar access denied. '' m
                        \<or> prefix ''Failed to fetch calendar events: '' m)))"

text \<open>
  A calendar's event query returns the pages \<open>ps\<close>, starting from the continuation token
  \<open>tok\<close>: every request resolves, each page but the last carries a continuation token
  that the next request passes, and the last page carries none.
\<close>

fun page_chain :: "(list_req \<Rightarrow> js_error + page) \<Rightarrow> list_req \<Rightarrow> string option \<Rightarrow> page list \<Rightarrow> bool" where
  "page_chain lst q tok [] = False"
| "page_chain lst q tok (p # ps) =
     (lst (q\<lparr>pageToken := tok\<rparr>) = Inr p
      \<and> (if ps = [] then \<not> truthy (nextPageToken p)
         else truthy (nextPageToken p) \<and> page_chain lst q (nextPageToken p) ps))"

text \<open>
  A calendar's event query fails with \<open>e\<close>: after the pages \<open>ps\<close>, each with a
  continuation token, the next request is rejected.
\<close>

fun fail_chain :: "(list_req \<Rightarrow> js_error + page) \<Rightarrow> list_req \<Rightarrow> string option \<Rightarrow> page list \<Rightarrow> js_error \<Rightarrow> bool" where
  "fail_chain lst q tok [] e = (lst (q\<lparr>pageToken := tok\<rparr>) = Inl e)"
| "fail_chain lst q tok (p # ps) e =
     (lst (q\<lparr>pageToken := tok\<rparr>) = Inr p \<and> truthy (nextPageToken p)
      \<and> fail_chain lst q (nextPageToken p) ps e)"

text \<open>
  The requests that drain the pages \<open>ps\<close>: the first passes \<open>tok\<close>, each later one the
  continuation token of the page before it.
\<close>

definition chain_requests :: "list_req \<Rightarrow> string option \<Rightarrow> page list \<Rightarrow> request list" where
  "chain_requests q tok ps =
     map (\<lambda>t. EventsList (q\<lparr>pageToken := t\<rparr>)) (tok # map nextPageToken (butlast ps))"

text \<open>
  Every selected calendar, the \<open>k\<close>-th being queried with the clock reading \<open>now k\<close>, has
  its pages; the requests that drain them, one list for each calendar; and the events the
  pages hold, calendar by calendar.
\<close>

fun calendar_chains ::
  "(list_req \<Rightarrow> js_error + page) \<Rightarrow> (nat \<Rightarrow> string) \<Rightarrow> string option \<Rightarrow> string option \<Rightarrow> nat
     \<Rightarrow> string list \<Rightarrow> page list list \<Rightarrow> bool" where
  "calendar_chains lst now tmin tmax k [] [] = True"
| "calendar_chains lst now tmin tmax k (c # cs) (ps # pss) =
     (page_chain lst (queryParams_of now k tmin tmax c) None ps
      \<and> calendar_chains lst now tmin tmax (Suc k) cs pss)"
| "calendar_chains lst now tmin tmax k _ _ = False"

fun calendar_requests ::
  "(nat \<Rightarrow> string) \<Rightarrow> string option \<Rightarrow> string option \<Rightarrow> nat \<Rightarrow> string list \<Rightarrow> page list list
     \<Rightarrow> request list list" where
  "calendar_requests now tmin tmax k (c # cs) (ps # pss) =
     chain_requests (queryParams_of now k tmin tmax c) None ps
     # calendar_requests now tmin tmax (Suc k) cs pss"
| "calendar_requests now tmin tmax k _ _ = []"

definition calendar_major :: "string list \<Rightarrow> page list list \<Rightarrow> event list" where
  "calendar_major cs pss = concat (map2 (\<lambda>c ps. concat (map (tag_items c) ps)) cs pss)"

section \<open>Sample data\<close>

text \<open>
  A credential store with one linked user, a clock, and providers to run the operations
  on: a rejection as the remote transport reports it, a provider that rejects every call,
  and a provider with two calendars, \<open>A\<close> with three events on two pages and \<open>B\<close> with
  two events on one page.
\<close>

definition alice_account :: account where
  "alice_account = \<lparr>userId = ''alice'', accessToken = Some ''ya29.a0'',
                     refreshToken = Some ''1//0g'', scope = Some ''email calendar.events'',
                     updatedAt = 100\<rparr>"

definition alice_client :: calendar_client where
  "alice_client = \<lparr>client_access_token = ''ya29.a0'', client_refresh_token = Some ''1//0g'',
                    observer_userId = ''alice''\<rparr>"

definition fixed_clock :: "nat \<Rightarrow> string" where
  "fixed_clock k = ''2025-01-01T00:00:00.000Z''"

definition remote_error :: "int \<Rightarrow> string \<Rightarrow> js_error" where
  "remote_error n msg = \<lparr>message = Some msg, code = JNum n, status = JNum n,
                          response_message = Some msg\<rparr>"

definition rejecting_provider :: "js_error \<Rightarrow> unit provider" where
  "rejecting_provider e =
     \<lparr>calendarList_list = (\<lambda>client s. Inl e),
      events_list = (\<lambda>client s req. Inl e),
      events_insert = (\<lambda>client s calId ev. (s, Inl e)),
      events_update = (\<lambda>client s calId eventId ev. (s, Inl e)),
      events_delete = (\<lambda>client s calId eventId. (s, Inl e))\<rparr>"

definition sample_event :: "string \<Rightarrow> event" where
  "sample_event i = \<lparr>event_id = i, summary = Some ''Meeting'', description = None,
                      start_time = None, end_time = None, attendees = None,
                      event_status = Some ''confirmed'', calendarId = None\<rparr>"

definition sample_calendar :: "string \<Rightarrow> calendar" where
  "sample_calendar c = \<lparr>cal_id = c, cal_summary = None, cal_primary = None,
                         accessRole = Some ''owner''\<rparr>"

definition pageA1 :: page where
  "pageA1 = \<lparr>items = Some [sample_event ''A1'', sample_event ''A2''], nextPageToken = Some ''p2''\<rparr>"

definition pageA2 :: page where
  "pageA2 = \<lparr>items = Some [sample_event ''A3''], nextPageToken = None\<rparr>"

definition pageB1 :: page where
  "pageB1 = \<lparr>items = Some [sample_event ''B1'', sample_event ''B2''], nextPageToken = None\<rparr>"

definition two_calendars :: "unit provider" where
  "two_calendars =
     \<lparr>calendarList_list = (\<lambda>client s. Inr (Some [sample_calendar ''A'', sample_calendar ''B''])),
      events_list = (\<lambda>client s req.
         if req_calendarId req = ''A''
         then (if pageToken req = None then Inr pageA1
               else if pageToken req = Some ''p2'' then Inr pageA2
               else Inl (remote_error 400 ''Invalid page token''))
         else if req_calendarId req = ''B'' then Inr pageB1
         else Inl (remote_error 404 ''Not Found'')),
      events_insert = (\<lambda>client s calId ev. (s, Inl (remote_error 403 ''Forbidden''))),
      events_update = (\<lambda>client s calId eventId ev. (s, Inl (remote_error 403 ''Forbidden''))),
      events_delete = (\<lambda>client s calId eventId. (s, Inl (remote_error 403 ''Forbidden'')))\<rparr>"

text \<open>A page that always announces a next one.\<close>

definition endless_page :: page where
  "endless_page = \<lparr>items = None, nextPageToken = Some ''next''\<rparr>"

definition tagged_event :: "string \<Rightarrow> string \<Rightarrow> event" where
  "tagged_event i c = (sample_event i)\<lparr>calendarId := Some c\<rparr>"

definition sample_query :: "string \<Rightarrow> string option \<Rightarrow> request" where
  "sample_query c tok = EventsList ((queryParams_of fixed_clock 0 None None c)\<lparr>pageToken := tok\<rparr>)"

text \<open>
  The provider's \<open>events.update\<close> as the Calendar API has it: a full update (an HTTP
  PUT), in which the request body replaces the stored event resource, so that a field the
  body omits is cleared; the partial update of that API is \<open>events.patch\<close>, which
  \<open>calendar.ts\<close> never calls. What a draft cannot carry (identifier, status) stays. The
  remote state maps a calendar and an event identifier to the stored event.
\<close>

definition full_update_provider :: "(string \<times> string \<Rightarrow> event option) provider" where
  "full_update_provider =
     \<lparr>calendarList_list = (\<lambda>client s. Inr None),
      events_list = (\<lambda>client s req. Inr \<lparr>items = None, nextPageToken = None\<rparr>),
      events_insert = (\<lambda>client s calId ev. (s, Inl (remote_error 403 ''Forbidden''))),
      events_update = (\<lambda>client s calId eventId ev.
         case s (calId, eventId) of
           None \<Rightarrow> (s, Inl (remote_error 404 ''Not Found''))
         | Some old \<Rightarrow>
             (s((calId, eventId) \<mapsto>
                  old\<lparr>summary := new_summary ev, description := new_description ev,
                      start_time := new_start ev, end_time := new_end ev,
                      attendees := new_attendees ev\<rparr>),
              Inr (old\<lparr>summary := new_summary ev, description := new_description ev,
                       start_time := new_start ev, end_time := new_end ev,
                       attendees := new_attendees ev\<rparr>))),
      events_delete = (\<lambda>client s calId eventId. (s((calId, eventId) := None), Inr ()))\<rparr>"

definition stored_event :: event where
  "stored_event = \<lparr>event_id = ''e1'', summary = Some ''Standup'',
                    description = Some ''Bring slides'',
                    start_time = Some (''2025-01-02T09:00:00Z'', None),
                    end_time = Some (''2025-01-02T09:30:00Z'', None),
                    attendees = Some [''bob@example.com''],
                    event_status = Some ''confirmed'', calendarId = None\<rparr>"

definition one_event_store :: "string \<times> string \<Rightarrow> event option" where
  "one_event_store = Map.empty((''primary'', ''e1'') \<mapsto> stored_event)"

definition rename_draft :: partial_draft where
  "rename_draft = \<lparr>new_summary = Some ''Daily standup'', new_description = None,
                    new_start = None, new_end = None, new_attendees = None\<rparr>"

definition sample_draft :: event_draft where
  "sample_draft = \<lparr>draft_summary = ''Lunch'', draft_description = None,
                    draft_start = (''2025-01-02T12:00:00Z'', None),
                    draft_end = (''2025-01-02T13:00:00Z'', None),
                    draft_attendees = None\<rparr>"

text \<open>A partial draft: a new summary and new times, no description and no attendees.\<close>

definition retitle_draft :: partial_draft where
  "retitle_draft = \<lparr>new_summary = Some ''Daily standup'', new_description = None,
                     new_start = Some (''2025-01-03T09:00:00Z'', None),
                     new_end = Some (''2025-01-03T09:30:00Z'', None),
                     new_attendees = None\<rparr>"

text \<open>
  A provider with one calendar, \<open>L\<close>: three events on its first page, one on its second,
  whose continuation token is the empty string.
\<close>

definition pageL1 :: page where
  "pageL1 = \<lparr>items = Some [sample_event ''L1'', sample_event ''L2'', sample_event ''L3''],
             nextPageToken = Some ''n2''\<rparr>"

definition pageL2 :: page where
  "pageL2 = \<lparr>items = Some [sample_event ''L4''], nextPageToken = Some []\<rparr>"

definition long_calendar :: "unit provider" where
  "long_calendar =
     \<lparr>calendarList_list = (\<lambda>client s. Inr (Some [sample_calendar ''L''])),
      events_list = (\<lambda>client s req.
         if req_calendarId req = ''L''
         then (if pageToken req = None then Inr pageL1
               else if pageToken req = Some ''n2'' then Inr pageL2
               else Inl (remote_error 400 ''Invalid page token''))
         else Inl (remote_error 404 ''Not Found'')),
      events_insert = (\<lambda>client s calId ev. (s, Inl (remote_error 403 ''Forbidden''))),
      events_update = (\<lambda>client s calId eventId ev. (s, Inl (remote_error 403 ''Forbidden''))),
      events_delete = (\<lambda>client s calId eventId. (s, Inl (remote_error 403 ''Forbidden'')))\<rparr>"

section \<open>Basic facts\<close>

lemma select_account_find:
  "select_account db uid = (case find (\<lambda>a. userId a = uid) db of None \<Rightarrow> [] | Some a \<Rightarrow> [a])"
  unfolding select_account_def by (induction db) auto

lemma getCalendarClient_alice:
  "getCalendarClient [alice_account] ''alice'' = Inr alice_client"
  by (simp add: getCalendarClient_def select_account_def alice_account_def alice_client_def)

subsection \<open>The pagination loop and the loop over the calendars\<close>

text \<open>
  The loop need not return: against a provider whose every page announces a next one it
  runs forever.
\<close>

lemma fetch_pages_endless_aux:
  "fetch_pages lst q tok log acc = Some y \<Longrightarrow> lst \<noteq> (\<lambda>req. Inr endless_page)"
proof (induction rule: fetch_pages.raw_induct [rotated 1, consumes 1, case_names 1])
  case (1 fetch lst q tok log acc y)
  show ?case
  proof
    assume endless: "lst = (\<lambda>req. Inr endless_page)"
    with 1(2) have "fetch lst q (Some ''next'') (log @ [EventsList (q\<lparr>pageToken := tok\<rparr>)])
        (acc @ tag_items (req_calendarId q) endless_page) = Some y"
      by (simp add: endless_page_def truthy_def)
    from 1(1) [OF this] endless show False by simp
  qed
qed

lemma fetch_pages_endless:
  "fetch_pages (\<lambda>req. Inr endless_page) q tok log acc = None"
  using fetch_pages_endless_aux [of "\<lambda>req. Inr endless_page" q tok log acc]
  by (cases "fetch_pages (\<lambda>req. Inr endless_page) q tok log acc") auto

text \<open>When the pages end, it returns; and when it returns, the pages ended.\<close>

lemma chain_requests_Cons:
  "chain_requests q tok (p # p' # ps) =
     EventsList (q\<lparr>pageToken := tok\<rparr>) # chain_requests q (nextPageToken p) (p' # ps)"
  by (simp add: chain_requests_def)

lemma chain_requests_single:
  "chain_requests q tok [p] = [EventsList (q\<lparr>pageToken := tok\<rparr>)]"
  by (simp add: chain_requests_def)

lemma fetch_pages_chain:
  "page_chain lst q tok ps \<Longrightarrow>
   fetch_pages lst q tok log acc =
     Some (log @ chain_requests q tok ps,
           Inr (acc @ concat (map (tag_items (req_calendarId q)) ps)))"
proof (induction ps arbitrary: tok log acc)
  case Nil
  then show ?case by simp
next
  case (Cons p ps)
  show ?case
  proof (cases ps)
    case Nil
    with Cons.prems show ?thesis
      by (subst fetch_pages.simps) (simp add: chain_requests_single)
  next
    case (Cons p' ps')
    with Cons.prems have step: "lst (q\<lparr>pageToken := tok\<rparr>) = Inr p" "truthy (nextPageToken p)"
      "page_chain lst q (nextPageToken p) ps"
      by simp_all
    show ?thesis
      by (subst fetch_pages.simps) (simp add: step Cons.IH [OF step(3)] Cons chain_requests_Cons)
  qed
qed

lemma fetch_pages_fail_chain:
  "fail_chain lst q tok ps e \<Longrightarrow> \<exists>log'. fetch_pages lst q tok log acc = Some (log', Inl e)"
proof (induction ps arbitrary: tok log acc)
  case Nil
  then show ?case by (subst fetch_pages.simps) simp
next
  case (Cons p ps)
  then have step: "lst (q\<lparr>pageToken := tok\<rparr>) = Inr p" "truthy (nextPageToken p)"
    "fail_chain lst q (nextPageToken p) ps e"
    by simp_all
  show ?case
    by (subst fetch_pages.simps) (simp add: step Cons.IH [OF step(3)])
qed

lemma fetch_pages_success_aux:
  "fetch_pages lst q tok log acc = Some y \<Longrightarrow>
   (\<forall>acc'. snd y = Inr acc' \<longrightarrow>
     (\<exists>ps. page_chain lst q tok ps \<and> fst y = log @ chain_requests q tok ps
          \<and> acc' = acc @ concat (map (tag_items (req_calendarId q)) ps)))"
proof (induction rule: fetch_pages.raw_induct [rotated 1, consumes 1, case_names 1])
  case (1 fetch lst q tok log acc y)
  show ?case
  proof (cases "lst (q\<lparr>pageToken := tok\<rparr>)")
    case (Inl e)
    with 1(2) show ?thesis by auto
  next
    case (Inr p)
    show ?thesis
    proof (cases "truthy (nextPageToken p)")
      case True
      with 1(2) Inr have rec: "fetch lst q (nextPageToken p) (log @ [EventsList (q\<lparr>pageToken := tok\<rparr>)])
          (acc @ tag_items (req_calendarId q) p) = Some y"
        by simp
      show ?thesis
      proof (intro allI impI)
        fix acc' assume "snd y = Inr acc'"
        with 1(1) [OF rec] obtain ps where ps: "page_chain lst q (nextPageToken p) ps"
          "fst y = (log @ [EventsList (q\<lparr>pageToken := tok\<rparr>)]) @ chain_requests q (nextPageToken p) ps"
          "acc' = (acc @ tag_items (req_calendarId q) p) @ concat (map (tag_items (req_calendarId q)) ps)"
          by blast
        from ps(1) obtain p' ps' where "ps = p' # ps'" by (cases ps) auto
        with ps Inr True have "page_chain lst q tok (p # ps)
            \<and> fst y = log @ chain_requests q tok (p # ps)
            \<and> acc' = acc @ concat (map (tag_items (req_calendarId q)) (p # ps))"
          by (simp add: chain_requests_Cons)
        then show "\<exists>ps. page_chain lst q tok ps \<and> fst y = log @ chain_requests q tok ps
            \<and> acc' = acc @ concat (map (tag_items (req_calendarId q)) ps)"
          by blast
      qed
    next
      case False
      with 1(2) Inr have y: "y = (log @ [EventsList (q\<lparr>pageToken := tok\<rparr>)],
          Inr (acc @ tag_items (req_calendarId q) p))"
        by simp
      show ?thesis
      proof (intro allI impI)
        fix acc' assume "snd y = Inr acc'"
        with y Inr False have "page_chain lst q tok [p] \<and> fst y = log @ chain_requests q tok [p]
            \<and> acc' = acc @ concat (map (tag_items (req_calendarId q)) [p])"
          by (auto simp: chain_requests_single)
        then show "\<exists>ps. page_chain lst q tok ps \<and> fst y = log @ chain_requests q tok ps
            \<and> acc' = acc @ concat (map (tag_items (req_calendarId q)) ps)"
          by blast
      qed
    qed
  qed
qed

lemma fetch_pages_success:
  "fetch_pages lst q tok log acc = Some (log', Inr acc') \<Longrightarrow>
   \<exists>ps. page_chain lst q tok ps \<and> log' = log @ chain_requests q tok ps
        \<and> acc' = acc @ concat (map (tag_items (req_calendarId q)) ps)"
  using fetch_pages_success_aux [of lst q tok log acc "(log', Inr acc')"] by simp

lemma for_calendarIds_chains:
  "calendar_chains lst now tmin tmax k cs pss \<Longrightarrow>
   for_calendarIds lst now tmin tmax k cs log acc =
     Some (log @ concat (calendar_requests now tmin tmax k cs pss), Inr (acc @ calendar_major cs pss))"
proof (induction lst now tmin tmax k cs pss arbitrary: log acc rule: calendar_chains.induct)
  case (1 lst now tmin tmax k)
  then show ?case by (simp add: calendar_major_def)
next
  case (2 lst now tmin tmax k c cs ps pss)
  then have chain: "page_chain lst (queryParams_of now k tmin tmax c) None ps"
    and rest: "calendar_chains lst now tmin tmax (Suc k) cs pss"
    by simp_all
  have c: "req_calendarId (queryParams_of now k tmin tmax c) = c"
    by (simp add: queryParams_of_def)
  show ?case
    by (simp add: fetch_pages_chain [OF chain] "2.IH" [OF rest] c calendar_major_def)
qed simp_all

lemma for_calendarIds_success:
  "for_calendarIds lst now tmin tmax k cs log acc = Some (log', Inr acc') \<Longrightarrow>
   \<exists>pss. calendar_chains lst now tmin tmax k cs pss
        \<and> log' = log @ concat (calendar_requests now tmin tmax k cs pss)
        \<and> acc' = acc @ calendar_major cs pss"
proof (induction cs arbitrary: k log acc)
  case Nil
  then have "calendar_chains lst now tmin tmax k [] [] \<and> log' = log @ concat (calendar_requests now tmin tmax k [] [])
      \<and> acc' = acc @ calendar_major [] []"
    by (simp add: calendar_major_def)
  then show ?case by blast
next
  case (Cons c cs)
  let ?q = "queryParams_of now k tmin tmax c"
  have c: "req_calendarId ?q = c" by (simp add: queryParams_of_def)
  from Cons.prems obtain log1 acc1 where
    first: "fetch_pages lst ?q None log acc = Some (log1, Inr acc1)"
    and rest: "for_calendarIds lst now tmin tmax (Suc k) cs log1 acc1 = Some (log', Inr acc')"
    by (auto split: option.splits sum.splits)
  from fetch_pages_success [OF first] c obtain ps where ps: "page_chain lst ?q None ps"
    "log1 = log @ chain_requests ?q None ps" "acc1 = acc @ concat (map (tag_items c) ps)"
    by auto
  from Cons.IH [OF rest] obtain pss where pss: "calendar_chains lst now tmin tmax (Suc k) cs pss"
    "log' = log1 @ concat (calendar_requests now tmin tmax (Suc k) cs pss)"
    "acc' = acc1 @ calendar_major cs pss"
    by blast
  from ps pss have "calendar_chains lst now tmin tmax k (c # cs) (ps # pss)
      \<and> log' = log @ concat (calendar_requests now tmin tmax k (c # cs) (ps # pss))
      \<and> acc' = acc @ calendar_major (c # cs) (ps # pss)"
    by (simp add: calendar_major_def)
  then show ?case by blast
qed

lemma for_calendarIds_fails:
  "calendar_chains lst now tmin tmax k pre pss \<Longrightarrow>
   fail_chain lst (queryParams_of now (k + length pre) tmin tmax c) None ps e \<Longrightarrow>
   \<exists>log'. for_calendarIds lst now tmin tmax k (pre @ c # post) log acc = Some (log', Inl e)"
proof (induction lst now tmin tmax k pre pss arbitrary: log acc rule: calendar_chains.induct)
  case (1 lst now tmin tmax k)
  then have "fail_chain lst (queryParams_of now k tmin tmax c) None ps e" by simp
  from fetch_pages_fail_chain [OF this, of log acc] obtain log' where
    "fetch_pages lst (queryParams_of now k tmin tmax c) None log acc = Some (log', Inl e)"
    by blast
  then show ?case by simp
next
  case (2 lst now tmin tmax k c' cs qs pss)
  then have chain: "page_chain lst (queryParams_of now k tmin tmax c') None qs"
    and rest: "calendar_chains lst now tmin tmax (Suc k) cs pss"
    by simp_all
  from 2(3) have f: "fail_chain lst (queryParams_of now (Suc k + length cs) tmin tmax c) None ps e"
    by simp
  show ?case
    using "2.IH" [OF rest f] by (simp add: fetch_pages_chain [OF chain])
qed simp_all

lemma concat_tag_items:
  "concat (map (tag_items c) ps) =
     map (\<lambda>item. item\<lparr>calendarId := Some c\<rparr>)
         (concat (map (\<lambda>p. case items p of None \<Rightarrow> [] | Some xs \<Rightarrow> xs) ps))"
  by (induction ps) (simp_all add: tag_items_def)

lemma page_chain_nonempty: "page_chain lst q tok ps \<Longrightarrow> ps \<noteq> []"
  by (cases ps) simp_all

lemma page_chain_excludes_fail_chain:
  "page_chain lst q tok ps \<Longrightarrow> fail_chain lst q tok ps' e \<Longrightarrow> False"
proof (induction ps arbitrary: tok ps')
  case Nil
  then show ?case by simp
next
  case (Cons p ps)
  from Cons.prems(1) have here: "lst (q\<lparr>pageToken := tok\<rparr>) = Inr p" by simp
  show ?case
  proof (cases ps')
    case Nil
    with Cons.prems(2) here show ?thesis by simp
  next
    case (Cons p' ps'')
    with Cons.prems(2) here have same: "p' = p" and more: "truthy (nextPageToken p)"
      and rest: "fail_chain lst q (nextPageToken p) ps'' e"
      by simp_all
    from Cons.prems(1) more have "page_chain lst q (nextPageToken p) ps"
      by (cases ps) simp_all
    from Cons.IH [OF this rest] show ?thesis .
  qed
qed

lemma chain_requests_nth:
  assumes "ps \<noteq> []"
  shows "length (chain_requests q tok ps) = length ps"
    and "i < length ps \<Longrightarrow>
         chain_requests q tok ps ! i =
           EventsList (q\<lparr>pageToken := (if i = 0 then tok else nextPageToken (ps ! (i - 1)))\<rparr>)"
proof -
  from assms show "length (chain_requests q tok ps) = length ps"
    by (simp add: chain_requests_def)
  assume i: "i < length ps"
  show "chain_requests q tok ps ! i =
           EventsList (q\<lparr>pageToken := (if i = 0 then tok else nextPageToken (ps ! (i - 1)))\<rparr>)"
  proof (cases i)
    case 0
    then show ?thesis by (simp add: chain_requests_def)
  next
    case (Suc j)
    with i have j: "j < length (butlast ps)" by simp
    then have "(tok # map nextPageToken (butlast ps)) ! i = nextPageToken (ps ! j)"
      using Suc by (simp add: nth_butlast)
    with i assms Suc show ?thesis by (simp add: chain_requests_def)
  qed
qed

lemma calendar_chains_nth:
  "calendar_chains lst now tmin tmax k cs pss \<Longrightarrow> j < length cs \<Longrightarrow>
   page_chain lst (queryParams_of now (k + j) tmin tmax (cs ! j)) None (pss ! j)"
proof (induction lst now tmin tmax k cs pss arbitrary: j rule: calendar_chains.induct)
  case (2 lst now tmin tmax k c cs ps pss)
  then show ?case by (cases j) simp_all
qed simp_all

lemma calendar_requests_nth:
  "calendar_chains lst now tmin tmax k cs pss \<Longrightarrow>
   length (calendar_requests now tmin tmax k cs pss) = length cs
   \<and> (\<forall>j < length cs. calendar_requests now tmin tmax k cs pss ! j =
          chain_requests (queryParams_of now (k + j) tmin tmax (cs ! j)) None (pss ! j))"
proof (induction lst now tmin tmax k cs pss rule: calendar_chains.induct)
  case (2 lst now tmin tmax k c cs ps pss)
  then have IH: "length (calendar_requests now tmin tmax (Suc k) cs pss) = length cs"
    "\<And>j. j < length cs \<Longrightarrow> calendar_requests now tmin tmax (Suc k) cs pss ! j =
          chain_requests (queryParams_of now (Suc k + j) tmin tmax (cs ! j)) None (pss ! j)"
    by simp_all
  show ?case
  proof (intro conjI allI impI)
    show "length (calendar_requests now tmin tmax k (c # cs) (ps # pss)) = length (c # cs)"
      using IH(1) by simp
    fix j assume "j < length (c # cs)"
    then show "calendar_requests now tmin tmax k (c # cs) (ps # pss) ! j =
          chain_requests (queryParams_of now (k + j) tmin tmax ((c # cs) ! j)) None ((ps # pss) ! j)"
      using IH(2) by (cases j) simp_all
  qed
qed simp_all

lemma calendar_major_tagged:
  "calendar_chains lst now tmin tmax k cs pss \<Longrightarrow> ev \<in> set (calendar_major cs pss) \<Longrightarrow>
   \<exists>c \<in> set cs. calendarId ev = Some c
     \<and> (\<exists>q. EventsList q \<in> set (concat (calendar_requests now tmin tmax k cs pss))
             \<and> req_calendarId q = c)"
proof (induction lst now tmin tmax k cs pss rule: calendar_chains.induct)
  case (2 lst now tmin tmax k c cs ps pss)
  from "2.prems"(1) have chain: "page_chain lst (queryParams_of now k tmin tmax c) None ps"
    and rest: "calendar_chains lst now tmin tmax (Suc k) cs pss"
    by simp_all
  from "2.prems"(2) consider
    (here) "ev \<in> set (concat (map (tag_items c) ps))" | (later) "ev \<in> set (calendar_major cs pss)"
    by (auto simp: calendar_major_def)
  then show ?case
  proof cases
    case here
    then have tag: "calendarId ev = Some c"
      by (auto simp: tag_items_def)
    from page_chain_nonempty [OF chain] obtain p ps' where "ps = p # ps'"
      by (cases ps) auto
    then have "EventsList ((queryParams_of now k tmin tmax c)\<lparr>pageToken := None\<rparr>)
        \<in> set (chain_requests (queryParams_of now k tmin tmax c) None ps)"
      by (simp add: chain_requests_def)
    moreover have "req_calendarId ((queryParams_of now k tmin tmax c)\<lparr>pageToken := None\<rparr>) = c"
      by (simp add: queryParams_of_def)
    ultimately show ?thesis using tag by auto
  next
    case later
    from "2.IH" [OF rest later] show ?thesis by auto
  qed
qed (simp_all add: calendar_major_def)

lemma getEvents_success:
  assumes "getEvents db P s now uid tmin tmax arg = Some (log, Inr evs)"
  shows "\<exists>client log0 cs pss.
           getCalendarClient db uid = Inr client
           \<and> select_calendarIds db P s uid arg = (log0, Inr cs)
           \<and> calendar_chains (events_list P client s) now tmin tmax 0 cs pss
           \<and> log = log0 @ concat (calendar_requests now tmin tmax 0 cs pss)
           \<and> evs = calendar_major cs pss"
proof -
  from assms have body: "getEvents_try db P s now uid tmin tmax arg = Some (log, Inr evs)"
    by (auto simp: getEvents_def split: option.splits sum.splits)
  then obtain client where client: "getCalendarClient db uid = Inr client"
    by (cases "getCalendarClient db uid") (auto simp: getEvents_try_def)
  from body client obtain log0 cs where sel: "select_calendarIds db P s uid arg = (log0, Inr cs)"
    and loop: "for_calendarIds (events_list P client s) now tmin tmax 0 cs log0 [] = Some (log, Inr evs)"
    by (auto simp: getEvents_try_def split: prod.splits sum.splits)
  from for_calendarIds_success [OF loop] obtain pss where
    "calendar_chains (events_list P client s) now tmin tmax 0 cs pss"
    "log = log0 @ concat (calendar_requests now tmin tmax 0 cs pss)"
    "evs = [] @ calendar_major cs pss"
    by blast
  with client sel show ?thesis by auto
qed

lemma getEvents_chains:
  assumes client: "getCalendarClient db uid = Inr client"
    and sel: "select_calendarIds db P s uid arg = (log0, Inr cs)"
    and chains: "calendar_chains (events_list P client s) now tmin tmax 0 cs pss"
  shows "getEvents db P s now uid tmin tmax arg
           = Some (log0 @ concat (calendar_requests now tmin tmax 0 cs pss),
                   Inr (calendar_major cs pss))"
  using client sel for_calendarIds_chains [OF chains, of log0 "[]"]
  by (simp add: getEvents_def getEvents_try_def)

lemma getEvents_fetch_failure:
  assumes client: "getCalendarClient db uid = Inr client"
    and sel: "select_calendarIds db P s uid arg = (log0, Inr (pre @ c # post))"
    and chains: "calendar_chains (events_list P client s) now tmin tmax 0 pre pss"
    and fails: "fail_chain (events_list P client s) (queryParams_of now (length pre) tmin tmax c) None ps e"
  shows "\<exists>log. getEvents db P s now uid tmin tmax arg = Some (log, Inl (classify e))"
proof -
  from fails have "fail_chain (events_list P client s)
      (queryParams_of now (0 + length pre) tmin tmax c) None ps e"
    by simp
  from for_calendarIds_fails [OF chains this, of post log0 "[]"] obtain log where
    "for_calendarIds (events_list P client s) now tmin tmax 0 (pre @ c # post) log0 [] = Some (log, Inl e)"
    by blast
  with client sel have "getEvents db P s now uid tmin tmax arg = Some (log, Inl (classify e))"
    by (simp add: getEvents_def getEvents_try_def)
  then show ?thesis by blast
qed

lemma classify_is_classified: "is_classified (classify e)"
  by (simp add: classify_def is_classified_def AuthExpired_def ApiNotEnabled_def
      InsufficientPermission_def RateLimited_def new_Error_def Let_def)

subsection \<open>The sample provider with two calendars\<close>

lemma two_calendars_selection:
  "select_calendarIds [alice_account] two_calendars () ''alice'' None
     = ([CalendarListList], Inr [''A'', ''B''])"
  by (simp add: select_calendarIds_def listCalendars_def getCalendarClient_alice
      two_calendars_def sample_calendar_def)

lemma two_calendars_chains:
  "calendar_chains (events_list two_calendars alice_client ()) fixed_clock None None 0
     [''A'', ''B''] [[pageA1, pageA2], [pageB1]]"
  by (simp add: two_calendars_def queryParams_of_def pageA1_def pageA2_def pageB1_def truthy_def)

lemma two_calendars_events:
  "calendar_major [''A'', ''B''] [[pageA1, pageA2], [pageB1]]
     = [tagged_event ''A1'' ''A'', tagged_event ''A2'' ''A'', tagged_event ''A3'' ''A'',
        tagged_event ''B1'' ''B'', tagged_event ''B2'' ''B'']"
  by (simp add: calendar_major_def tag_items_def pageA1_def pageA2_def pageB1_def tagged_event_def)

lemma two_calendars_requests:
  "calendar_requests fixed_clock None None 0 [''A'', ''B''] [[pageA1, pageA2], [pageB1]]
     = [[sample_query ''A'' None, sample_query ''A'' (Some ''p2'')], [sample_query ''B'' None]]"
  by (simp add: chain_requests_def sample_query_def queryParams_of_def fixed_clock_def
      pageA1_def pageA2_def pageB1_def)

lemma two_calendars_getEvents:
  "getEvents [alice_account] two_calendars () fixed_clock ''alice'' None None None
     = Some ([CalendarListList, sample_query ''A'' None, sample_query ''A'' (Some ''p2''),
              sample_query ''B'' None],
             Inr [tagged_event ''A1'' ''A'', tagged_event ''A2'' ''A'', tagged_event ''A3'' ''A'',
                  tagged_event ''B1'' ''B'', tagged_event ''B2'' ''B''])"
  using getEvents_chains [OF getCalendarClient_alice two_calendars_selection two_calendars_chains]
  unfolding two_calendars_events two_calendars_requests by simp

section \<open>Which operations classify their failures\<close>

text \<open>
  Claim C1 says that all five operations pass a remote failure through the classifier.
  Only \<open>getEvents\<close> has the classifying \<open>catch\<close>. With a provider that rejects every call
  with status 401, \<open>createEvent\<close> surfaces the provider's error itself, and
  \<open>listCalendars\<close> surfaces its own generic error; neither is one of the classified
  kinds, and the classifier would have made the first one \<open>AuthExpired\<close>.
\<close>

theorem unclassified_failures_counterexample:
  "createEvent [alice_account] (rejecting_provider (remote_error 401 ''Invalid Credentials'')) ()
       ''alice'' sample_draft
     = ((), Inl (remote_error 401 ''Invalid Credentials''))
   \<and> \<not> is_classified (remote_error 401 ''Invalid Credentials'')
   \<and> classify (remote_error 401 ''Invalid Credentials'') = AuthExpired
   \<and> listCalendars [alice_account] (rejecting_provider (remote_error 401 ''Invalid Credentials'')) ()
       ''alice''
     = ([CalendarListList], Inl (new_Error ''Failed to fetch calendar list: Invalid Credentials''))
   \<and> \<not> is_classified (new_Error ''Failed to fetch calendar list: Invalid Credentials'')"
  by (simp add: createEvent_def listCalendars_def getCalendarClient_alice rejecting_provider_def
      remote_error_def is_classified_def AuthExpired_def ApiNotEnabled_def
      InsufficientPermission_def RateLimited_def new_Error_def classify_def is_status_def
      template_def)

text \<open>
  Claim C1, amended. Every error that \<open>getEvents\<close> throws is one of the classified kinds.
  \<open>listCalendars\<close> turns a rejected calendar-list call into the generic error
  \<open>Failed to fetch calendar list:\<close> followed by the rejection's message, whatever its
  status. \<open>createEvent\<close>, \<open>updateEvent\<close> and \<open>deleteEvent\<close> throw the rejection of their
  remote call as it is.
\<close>

theorem failure_surfacing:
  "(getEvents db P s now uid tmin tmax arg = Some (log, Inl e) \<longrightarrow> is_classified e)
   \<and> (getCalendarClient db uid = Inr client \<and> calendarList_list P client s = Inl e
        \<longrightarrow> listCalendars db P s uid
              = ([CalendarListList],
                 Inl (new_Error (''Failed to fetch calendar list: '' @ template (message e)))))
   \<and> (getCalendarClient db uid = Inr client \<and> events_insert P client s ''primary'' ev = (s', Inl e)
        \<longrightarrow> createEvent db P s uid ev = (s', Inl e))
   \<and> (getCalendarClient db uid = Inr client
        \<and> events_update P client s ''primary'' eventId upd = (s', Inl e)
        \<longrightarrow> updateEvent db P s uid eventId upd = (s', Inl e))
   \<and> (getCalendarClient db uid = Inr client
        \<and> events_delete P client s ''primary'' eventId = (s', Inl e)
        \<longrightarrow> deleteEvent db P s uid eventId = (s', Inl e))"
proof (intro conjI impI)
  assume "getEvents db P s now uid tmin tmax arg = Some (log, Inl e)"
  then obtain e0 where "e = classify e0"
    by (auto simp: getEvents_def split: option.splits sum.splits)
  then show "is_classified e"
    by (simp add: classify_is_classified)
next
  assume "getCalendarClient db uid = Inr client \<and> calendarList_list P client s = Inl e"
  then show "listCalendars db P s uid
              = ([CalendarListList],
                 Inl (new_Error (''Failed to fetch calendar list: '' @ template (message e))))"
    by (simp add: listCalendars_def)
next
  assume "getCalendarClient db uid = Inr client \<and> events_insert P client s ''primary'' ev = (s', Inl e)"
  then show "createEvent db P s uid ev = (s', Inl e)"
    by (simp add: createEvent_def)
next
  assume "getCalendarClient db uid = Inr client
        \<and> events_update P client s ''primary'' eventId upd = (s', Inl e)"
  then show "updateEvent db P s uid eventId upd = (s', Inl e)"
    by (simp add: updateEvent_def)
next
  assume "getCalendarClient db uid = Inr client
        \<and> events_delete P client s ''primary'' eventId = (s', Inl e)"
  then show "deleteEvent db P s uid eventId = (s', Inl e)"
    by (simp add: deleteEvent_def)
qed

theorem failure_surfacing_witness:
  "getEvents [alice_account] two_calendars () fixed_clock ''alice'' None None
       (Some (Single ''Z''))
     = Some ([sample_query ''Z'' None], Inl (UpstreamFailure ''Not Found''))
   \<and> is_classified (UpstreamFailure ''Not Found'')
   \<and> listCalendars [alice_account] (rejecting_provider (remote_error 429 ''Rate Limit Exceeded''))
       () ''alice''
     = ([CalendarListList],
        Inl (new_Error ''Failed to fetch calendar list: Rate Limit Exceeded''))
   \<and> createEvent [alice_account] two_calendars () ''alice'' sample_draft
     = ((), Inl (remote_error 403 ''Forbidden''))
   \<and> updateEvent [alice_account] two_calendars () ''alice'' ''e1'' rename_draft
     = ((), Inl (remote_error 403 ''Forbidden''))
   \<and> deleteEvent [alice_account] two_calendars () ''alice'' ''e1''
     = ((), Inl (remote_error 403 ''Forbidden''))"
proof -
  have run: "getEvents [alice_account] two_calendars () fixed_clock ''alice'' None None
       (Some (Single ''Z''))
     = Some ([sample_query ''Z'' None], Inl (UpstreamFailure ''Not Found''))"
    by (simp add: getEvents_def getEvents_try_def getCalendarClient_alice select_calendarIds_def
        fetch_pages.simps two_calendars_def queryParams_of_def sample_query_def classify_def
        is_status_def remote_error_def UpstreamFailure_def template_def)
  have list: "calendarList_list (rejecting_provider (remote_error 429 ''Rate Limit Exceeded''))
      alice_client () = Inl (remote_error 429 ''Rate Limit Exceeded'')"
    by (simp add: rejecting_provider_def)
  have ins: "events_insert two_calendars alice_client () ''primary'' sample_draft
      = ((), Inl (remote_error 403 ''Forbidden''))"
    and upd: "events_update two_calendars alice_client () ''primary'' ''e1'' rename_draft
      = ((), Inl (remote_error 403 ''Forbidden''))"
    and del: "events_delete two_calendars alice_client () ''primary'' ''e1''
      = ((), Inl (remote_error 403 ''Forbidden''))"
    by (simp_all add: two_calendars_def)
  from failure_surfacing [of "[alice_account]" two_calendars "()" fixed_clock "''alice''" None None
      "Some (Single ''Z'')" "[sample_query ''Z'' None]" "UpstreamFailure ''Not Found''"] run
  have c1: "is_classified (UpstreamFailure ''Not Found'')"
    by simp
  from failure_surfacing [of "[alice_account]" _ "()" _ "''alice''" _ _ _ _
      "remote_error 429 ''Rate Limit Exceeded''" alice_client] getCalendarClient_alice list
  have c2: "listCalendars [alice_account] (rejecting_provider (remote_error 429 ''Rate Limit Exceeded''))
       () ''alice''
     = ([CalendarListList],
        Inl (new_Error ''Failed to fetch calendar list: Rate Limit Exceeded''))"
    by (simp add: remote_error_def template_def)
  from failure_surfacing [of "[alice_account]" two_calendars "()" _ "''alice''" _ _ _ _
      "remote_error 403 ''Forbidden''" alice_client sample_draft "()" "''e1''" rename_draft]
    getCalendarClient_alice ins upd del
  have c3: "createEvent [alice_account] two_calendars () ''alice'' sample_draft
       = ((), Inl (remote_error 403 ''Forbidden''))
     \<and> updateEvent [alice_account] two_calendars () ''alice'' ''e1'' rename_draft
       = ((), Inl (remote_error 403 ''Forbidden''))
     \<and> deleteEvent [alice_account] two_calendars () ''alice'' ''e1''
       = ((), Inl (remote_error 403 ''Forbidden''))"
    by simp
  from run c1 c2 c3 show ?thesis by simp
qed

section \<open>\<open>updateEvent\<close> and the fields a draft omits\<close>

text \<open>
  Claim C2. \<open>updateEvent\<close> takes a draft all of whose fields are optional, and hands it,
  as the whole request body, to \<open>calendar.events.update\<close>. That call is the provider's
  full update: the body replaces the stored event. So the omitted fields do not keep
  their values, as the claim has it; they are cleared. The stored event has a description
  and an attendee; the draft supplies a new summary and new times and omits both; after
  \<open>updateEvent\<close> the stored event has neither. The two fields that the draft supplies are
  changed, as the claim says.
\<close>

theorem updateEvent_clears_omitted_fields:
  "one_event_store (''primary'', ''e1'') = Some stored_event
   \<and> description stored_event = Some ''Bring slides''
   \<and> attendees stored_event = Some [''bob@example.com'']
   \<and> new_description retitle_draft = None
   \<and> new_attendees retitle_draft = None
   \<and> map_option description
       (fst (updateEvent [alice_account] full_update_provider one_event_store ''alice'' ''e1''
               retitle_draft) (''primary'', ''e1''))
     = Some None
   \<and> map_option attendees
       (fst (updateEvent [alice_account] full_update_provider one_event_store ''alice'' ''e1''
               retitle_draft) (''primary'', ''e1''))
     = Some None
   \<and> map_option summary
       (fst (updateEvent [alice_account] full_update_provider one_event_store ''alice'' ''e1''
               retitle_draft) (''primary'', ''e1''))
     = Some (Some ''Daily standup'')"
  by (simp add: updateEvent_def getCalendarClient_alice full_update_provider_def
      one_event_store_def stored_event_def retitle_draft_def)

section \<open>The error classifier of \<open>getEvents\<close>\<close>

text \<open>
  Claim C3. When an event fetch of \<open>getEvents\<close> is rejected with the error \<open>e\<close> (the
  calendars before it having been fetched), \<open>getEvents\<close> throws the classification of
  \<open>e\<close>, and the classification reads the cases in the order of the claim. A status is
  matched by \<open>error.code\<close> or \<open>error.status\<close>; the message is the provider's response
  message, or the error's own message when there is none. Status 401 gives \<open>AuthExpired\<close>.
  Otherwise status 403 with a message that contains \<open>Calendar API has not been used\<close>
  or \<open>has not been enabled\<close> gives \<open>ApiNotEnabled\<close>; failing that, a message that
  contains \<open>insufficient\<close> or \<open>scope\<close> gives \<open>InsufficientPermission\<close>; any other 403
  gives \<open>AccessDenied\<close> with the message echoed (a fixed hint when the message is empty).
  Otherwise status 429 gives \<open>RateLimited\<close>, and everything else \<open>UpstreamFailure\<close> with
  the error's message echoed.
\<close>

theorem classifier_mapping:
  assumes "getCalendarClient db uid = Inr client"
    and "select_calendarIds db P s uid arg = (sel_log, Inr (pre @ c # post))"
    and "calendar_chains (events_list P client s) now tmin tmax 0 pre pss"
    and "fail_chain (events_list P client s) (queryParams_of now (length pre) tmin tmax c) None ps e"
  shows "(\<exists>log. getEvents db P s now uid tmin tmax arg = Some (log, Inl (classify e)))
     \<and> (is_status 401 e \<longrightarrow> classify e = AuthExpired)
     \<and> (\<not> is_status 401 e \<and> is_status 403 e
          \<and> (msg_includes (errorMessage_of e) ''Calendar API has not been used''
             \<or> msg_includes (errorMessage_of e) ''has not been enabled'')
          \<longrightarrow> classify e = ApiNotEnabled)
     \<and> (\<not> is_status 401 e \<and> is_status 403 e
          \<and> \<not> msg_includes (errorMessage_of e) ''Calendar API has not been used''
          \<and> \<not> msg_includes (errorMessage_of e) ''has not been enabled''
          \<and> (msg_includes (errorMessage_of e) ''insufficient''
             \<or> msg_includes (errorMessage_of e) ''scope'')
          \<longrightarrow> classify e = InsufficientPermission)
     \<and> (\<not> is_status 401 e \<and> is_status 403 e
          \<and> \<not> msg_includes (errorMessage_of e) ''Calendar API has not been used''
          \<and> \<not> msg_includes (errorMessage_of e) ''has not been enabled''
          \<and> \<not> msg_includes (errorMessage_of e) ''insufficient''
          \<and> \<not> msg_includes (errorMessage_of e) ''scope''
          \<longrightarrow> classify e = AccessDenied
                (if truthy (errorMessage_of e) then template (errorMessage_of e)
                 else ''Please ensure Calendar API is enabled in Google Cloud Console and you have granted calendar permissions.''))
     \<and> (\<not> is_status 401 e \<and> \<not> is_status 403 e \<and> is_status 429 e
          \<longrightarrow> classify e = RateLimited)
     \<and> (\<not> is_status 401 e \<and> \<not> is_status 403 e \<and> \<not> is_status 429 e
          \<longrightarrow> classify e = UpstreamFailure (template (message e)))"
proof -
  have thrown: "\<exists>log. getEvents db P s now uid tmin tmax arg = Some (log, Inl (classify e))"
    using assms by (rule getEvents_fetch_failure)
  have cases: "(is_status 401 e \<longrightarrow> classify e = AuthExpired)
     \<and> (\<not> is_status 401 e \<and> is_status 403 e
          \<and> (msg_includes (errorMessage_of e) ''Calendar API has not been used''
             \<or> msg_includes (errorMessage_of e) ''has not been enabled'')
          \<longrightarrow> classify e = ApiNotEnabled)
     \<and> (\<not> is_status 401 e \<and> is_status 403 e
          \<and> \<not> msg_includes (errorMessage_of e) ''Calendar API has not been used''
          \<and> \<not> msg_includes (errorMessage_of e) ''has not been enabled''
          \<and> (msg_includes (errorMessage_of e) ''insufficient''
             \<or> msg_includes (errorMessage_of e) ''scope'')
          \<longrightarrow> classify e = InsufficientPermission)
     \<and> (\<not> is_status 401 e \<and> is_status 403 e
          \<and> \<not> msg_includes (errorMessage_of e) ''Calendar API has not been used''
          \<and> \<not> msg_includes (errorMessage_of e) ''has not been enabled''
          \<and> \<not> msg_includes (errorMessage_of e) ''insufficient''
          \<and> \<not> msg_includes (errorMessage_of e) ''scope''
          \<longrightarrow> classify e = AccessDenied
                (if truthy (errorMessage_of e) then template (errorMessage_of e)
                 else ''Please ensure Calendar API is enabled in Google Cloud Console and you have granted calendar permissions.''))
     \<and> (\<not> is_status 401 e \<and> \<not> is_status 403 e \<and> is_status 429 e
          \<longrightarrow> classify e = RateLimited)
     \<and> (\<not> is_status 401 e \<and> \<not> is_status 403 e \<and> \<not> is_status 429 e
          \<longrightarrow> classify e = UpstreamFailure (template (message e)))"
    by (simp add: classify_def AuthExpired_def ApiNotEnabled_def InsufficientPermission_def
        RateLimited_def AccessDenied_def UpstreamFailure_def Let_def)
  from thrown cases show ?thesis by (rule conjI)
qed

theorem classifier_mapping_witness:
  "(\<exists>log. getEvents [alice_account] (rejecting_provider (remote_error 401 ''Invalid Credentials''))
       () fixed_clock ''alice'' None None (Some (Single ''A'')) = Some (log, Inl AuthExpired))
   \<and> (\<exists>log. getEvents [alice_account]
       (rejecting_provider (remote_error 403 ''Google Calendar API has not been used in project 42 before or it is disabled.''))
       () fixed_clock ''alice'' None None (Some (Single ''A'')) = Some (log, Inl ApiNotEnabled))
   \<and> (\<exists>log. getEvents [alice_account]
       (rejecting_provider (remote_error 403 ''Request had insufficient authentication scopes.''))
       () fixed_clock ''alice'' None None (Some (Single ''A''))
         = Some (log, Inl InsufficientPermission))
   \<and> (\<exists>log. getEvents [alice_account] (rejecting_provider (remote_error 403 ''Forbidden''))
       () fixed_clock ''alice'' None None (Some (Single ''A''))
         = Some (log, Inl (AccessDenied ''Forbidden'')))
   \<and> (\<exists>log. getEvents [alice_account] (rejecting_provider (remote_error 429 ''Rate Limit Exceeded''))
       () fixed_clock ''alice'' None None (Some (Single ''A'')) = Some (log, Inl RateLimited))
   \<and> (\<exists>log. getEvents [alice_account] (rejecting_provider (remote_error 500 ''Backend Error''))
       () fixed_clock ''alice'' None None (Some (Single ''A''))
         = Some (log, Inl (UpstreamFailure ''Backend Error'')))"
proof -
  have sel: "select_calendarIds [alice_account] (rejecting_provider e) () ''alice''
               (Some (Single ''A'')) = ([], Inr ([] @ ''A'' # []))" for e
    by (simp add: select_calendarIds_def)
  have chains: "calendar_chains (events_list (rejecting_provider e) alice_client ()) fixed_clock
                  None None 0 [] []" for e
    by simp
  have fails: "fail_chain (events_list (rejecting_provider e) alice_client ())
                 (queryParams_of fixed_clock (length ([] :: string list)) None None ''A'') None [] e" for e
    by (simp add: rejecting_provider_def)
  note inst = classifier_mapping [OF getCalendarClient_alice sel chains fails]
  show ?thesis
  proof (intro conjI)
    show "\<exists>log. getEvents [alice_account] (rejecting_provider (remote_error 401 ''Invalid Credentials''))
       () fixed_clock ''alice'' None None (Some (Single ''A'')) = Some (log, Inl AuthExpired)"
      using inst [of "remote_error 401 ''Invalid Credentials''"]
      by (auto simp: remote_error_def is_status_def)
    show "\<exists>log. getEvents [alice_account]
       (rejecting_provider (remote_error 403 ''Google Calendar API has not been used in project 42 before or it is disabled.''))
       () fixed_clock ''alice'' None None (Some (Single ''A'')) = Some (log, Inl ApiNotEnabled)"
      using inst [of "remote_error 403 ''Google Calendar API has not been used in project 42 before or it is disabled.''"]
      by (auto simp: remote_error_def is_status_def errorMessage_of_def msg_includes_def truthy_def)
    show "\<exists>log. getEvents [alice_account]
       (rejecting_provider (remote_error 403 ''Request had insufficient authentication scopes.''))
       () fixed_clock ''alice'' None None (Some (Single ''A''))
         = Some (log, Inl InsufficientPermission)"
      using inst [of "remote_error 403 ''Request had insufficient authentication scopes.''"]
      by (auto simp: remote_error_def is_status_def errorMessage_of_def msg_includes_def truthy_def)
    show "\<exists>log. getEvents [alice_account] (rejecting_provider (remote_error 403 ''Forbidden''))
       () fixed_clock ''alice'' None None (Some (Single ''A''))
         = Some (log, Inl (AccessDenied ''Forbidden''))"
      using inst [of "remote_error 403 ''Forbidden''"]
      by (auto simp: remote_error_def is_status_def errorMessage_of_def msg_includes_def truthy_def
          template_def)
    show "\<exists>log. getEvents [alice_account] (rejecting_provider (remote_error 429 ''Rate Limit Exceeded''))
       () fixed_clock ''alice'' None None (Some (Single ''A'')) = Some (log, Inl RateLimited)"
      using inst [of "remote_error 429 ''Rate Limit Exceeded''"]
      by (auto simp: remote_error_def is_status_def)
    show "\<exists>log. getEvents [alice_account] (rejecting_provider (remote_error 500 ''Backend Error''))
       () fixed_clock ''alice'' None None (Some (Single ''A''))
         = Some (log, Inl (UpstreamFailure ''Backend Error''))"
      using inst [of "remote_error 500 ''Backend Error''"]
      by (auto simp: remote_error_def is_status_def template_def)
  qed
qed

section \<open>A failed fetch fails the whole aggregation\<close>

text \<open>
  Claim C4. Let the selection be \<open>pre @ c # post\<close> and let the event query of \<open>c\<close> be
  rejected, at once or after any number of pages. Then \<open>getEvents\<close> never returns events.
  When the calendars of \<open>pre\<close> have their pages \<open>pss\<close>, the loop fetches all their events,
  and \<open>getEvents\<close> still throws: it returns an error and none of the events it had
  fetched.
\<close>

theorem aggregation_all_or_nothing:
  assumes "getCalendarClient db uid = Inr client"
    and "select_calendarIds db P s uid arg = (sel_log, Inr (pre @ c # post))"
    and "fail_chain (events_list P client s) (queryParams_of now (length pre) tmin tmax c) None ps e"
  shows "(\<forall>log evs. getEvents db P s now uid tmin tmax arg \<noteq> Some (log, Inr evs))
     \<and> (calendar_chains (events_list P client s) now tmin tmax 0 pre pss
          \<longrightarrow> for_calendarIds (events_list P client s) now tmin tmax 0 pre sel_log []
                = Some (sel_log @ concat (calendar_requests now tmin tmax 0 pre pss),
                        Inr (concat (map2 (\<lambda>c ps. concat (map (tag_items c) ps)) pre pss)))
              \<and> (\<exists>log e'. getEvents db P s now uid tmin tmax arg = Some (log, Inl e')))"
proof (intro conjI allI impI)
  fix log evs
  show "getEvents db P s now uid tmin tmax arg \<noteq> Some (log, Inr evs)"
  proof
    assume "getEvents db P s now uid tmin tmax arg = Some (log, Inr evs)"
    from getEvents_success [OF this] assms(1,2) obtain pss' where
      all: "calendar_chains (events_list P client s) now tmin tmax 0 (pre @ c # post) pss'"
      by auto
    have "length pre < length (pre @ c # post)" by simp
    from calendar_chains_nth [OF all this]
    have "page_chain (events_list P client s) (queryParams_of now (length pre) tmin tmax c) None
            (pss' ! length pre)"
      by simp
    from page_chain_excludes_fail_chain [OF this assms(3)] show False .
  qed
next
  assume chains: "calendar_chains (events_list P client s) now tmin tmax 0 pre pss"
  show "for_calendarIds (events_list P client s) now tmin tmax 0 pre sel_log []
           = Some (sel_log @ concat (calendar_requests now tmin tmax 0 pre pss),
                   Inr (concat (map2 (\<lambda>c ps. concat (map (tag_items c) ps)) pre pss)))"
    using for_calendarIds_chains [OF chains, of sel_log "[]"] by (simp add: calendar_major_def)
  from getEvents_fetch_failure [OF assms(1,2) chains assms(3)]
  show "\<exists>log e'. getEvents db P s now uid tmin tmax arg = Some (log, Inl e')"
    by blast
qed

theorem aggregation_all_or_nothing_witness:
  "calendar_chains (events_list two_calendars alice_client ()) fixed_clock None None 0
     [''A''] [[pageA1, pageA2]]
   \<and> fail_chain (events_list two_calendars alice_client ())
       (queryParams_of fixed_clock 1 None None ''Z'') None [] (remote_error 404 ''Not Found'')
   \<and> (\<exists>log. for_calendarIds (events_list two_calendars alice_client ()) fixed_clock None None 0
              [''A''] [] []
         = Some (log, Inr [tagged_event ''A1'' ''A'', tagged_event ''A2'' ''A'',
                           tagged_event ''A3'' ''A'']))
   \<and> (\<exists>log e'. getEvents [alice_account] two_calendars () fixed_clock ''alice'' None None
                  (Some (Multiple [''A'', ''Z''])) = Some (log, Inl e'))"
proof -
  have sel: "select_calendarIds [alice_account] two_calendars () ''alice''
               (Some (Multiple [''A'', ''Z''])) = ([], Inr ([''A''] @ ''Z'' # []))"
    by (simp add: select_calendarIds_def)
  have chains: "calendar_chains (events_list two_calendars alice_client ()) fixed_clock None None 0
     [''A''] [[pageA1, pageA2]]"
    by (simp add: two_calendars_def queryParams_of_def pageA1_def pageA2_def truthy_def)
  have fails: "fail_chain (events_list two_calendars alice_client ())
       (queryParams_of fixed_clock (length [''A'']) None None ''Z'') None []
       (remote_error 404 ''Not Found'')"
    by (simp add: two_calendars_def queryParams_of_def)
  have events: "concat (map2 (\<lambda>c ps. concat (map (tag_items c) ps)) [''A''] [[pageA1, pageA2]])
      = [tagged_event ''A1'' ''A'', tagged_event ''A2'' ''A'', tagged_event ''A3'' ''A'']"
    by (simp add: tag_items_def pageA1_def pageA2_def tagged_event_def)
  from aggregation_all_or_nothing [OF getCalendarClient_alice sel fails, of "[[pageA1, pageA2]]"]
    chains
  have "(\<exists>log. for_calendarIds (events_list two_calendars alice_client ()) fixed_clock None None 0
              [''A''] [] []
         = Some (log, Inr [tagged_event ''A1'' ''A'', tagged_event ''A2'' ''A'',
                           tagged_event ''A3'' ''A'']))
   \<and> (\<exists>log e'. getEvents [alice_account] two_calendars () fixed_clock ''alice'' None None
                  (Some (Multiple [''A'', ''Z''])) = Some (log, Inl e'))"
    unfolding events by simp
  with chains fails show ?thesis by simp
qed

section \<open>The order of an aggregated result\<close>

text \<open>
  Claim C5. When \<open>getEvents\<close> returns events, the selection \<open>cs\<close> is the caller's list in
  the caller's order (the single identifier when one is given), or else the identifiers
  of the enumerator's calendars in the enumerator's order; every selected calendar has its
  pages; and the result is, calendar after calendar in selection order, the items of that
  calendar's pages in page order, each page's items in the provider's order. Nothing is
  sorted again and nothing is interleaved.
\<close>

theorem aggregation_order:
  assumes "getEvents db P s now uid tmin tmax arg = Some (log, Inr evs)"
  shows "\<exists>client sel_log cs pss.
           getCalendarClient db uid = Inr client
           \<and> select_calendarIds db P s uid arg = (sel_log, Inr cs)
           \<and> (\<forall>ids. arg = Some (Multiple ids) \<longrightarrow> cs = ids)
           \<and> (\<forall>c. arg = Some (Single c) \<and> c \<noteq> [] \<longrightarrow> cs = [c])
           \<and> (arg = None \<or> arg = Some (Single [])
                \<longrightarrow> (\<exists>calendars. listCalendars db P s uid = (sel_log, Inr calendars)
                                  \<and> cs = map cal_id calendars))
           \<and> calendar_chains (events_list P client s) now tmin tmax 0 cs pss
           \<and> evs = concat (map2 (\<lambda>c ps. concat (map (tag_items c) ps)) cs pss)"
proof -
  from getEvents_success [OF assms] obtain client sel_log cs pss where
    client: "getCalendarClient db uid = Inr client"
    and sel: "select_calendarIds db P s uid arg = (sel_log, Inr cs)"
    and chains: "calendar_chains (events_list P client s) now tmin tmax 0 cs pss"
    and evs: "evs = calendar_major cs pss"
    by blast
  from sel have many: "\<forall>ids. arg = Some (Multiple ids) \<longrightarrow> cs = ids"
    by (auto simp: select_calendarIds_def Let_def)
  from sel have one: "\<forall>c. arg = Some (Single c) \<and> c \<noteq> [] \<longrightarrow> cs = [c]"
    by (auto simp: select_calendarIds_def Let_def)
  have all: "\<exists>calendars. listCalendars db P s uid = (sel_log, Inr calendars)
                        \<and> cs = map cal_id calendars"
    if "arg = None \<or> arg = Some (Single [])"
  proof -
    from that sel have "(case listCalendars db P s uid of
               (log, Inl error) \<Rightarrow> (log, Inl error)
             | (log, Inr calendars) \<Rightarrow> (log, Inr (map cal_id calendars))) = (sel_log, Inr cs)"
      by (auto simp: select_calendarIds_def Let_def)
    then show ?thesis
      by (cases "listCalendars db P s uid") (auto split: sum.splits)
  qed
  show ?thesis
  proof (intro exI conjI)
    show "getCalendarClient db uid = Inr client" by (rule client)
    show "select_calendarIds db P s uid arg = (sel_log, Inr cs)" by (rule sel)
    show "\<forall>ids. arg = Some (Multiple ids) \<longrightarrow> cs = ids" by (rule many)
    show "\<forall>c. arg = Some (Single c) \<and> c \<noteq> [] \<longrightarrow> cs = [c]" by (rule one)
    show "arg = None \<or> arg = Some (Single [])
      \<longrightarrow> (\<exists>calendars. listCalendars db P s uid = (sel_log, Inr calendars)
                        \<and> cs = map cal_id calendars)"
      using all by blast
    show "calendar_chains (events_list P client s) now tmin tmax 0 cs pss" by (rule chains)
    show "evs = concat (map2 (\<lambda>c ps. concat (map (tag_items c) ps)) cs pss)"
      using evs by (simp add: calendar_major_def)
  qed
qed

theorem aggregation_order_witness:
  "getEvents [alice_account] two_calendars () fixed_clock ''alice'' None None None
     = Some ([CalendarListList, sample_query ''A'' None, sample_query ''A'' (Some ''p2''),
              sample_query ''B'' None],
             Inr [tagged_event ''A1'' ''A'', tagged_event ''A2'' ''A'', tagged_event ''A3'' ''A'',
                  tagged_event ''B1'' ''B'', tagged_event ''B2'' ''B''])
   \<and> (\<exists>pss. calendar_chains (events_list two_calendars alice_client ()) fixed_clock None None 0
                [''A'', ''B''] pss
            \<and> [tagged_event ''A1'' ''A'', tagged_event ''A2'' ''A'', tagged_event ''A3'' ''A'',
               tagged_event ''B1'' ''B'', tagged_event ''B2'' ''B'']
              = concat (map2 (\<lambda>c ps. concat (map (tag_items c) ps)) [''A'', ''B''] pss))"
proof -
  from aggregation_order [OF two_calendars_getEvents]
  have "\<exists>pss. calendar_chains (events_list two_calendars alice_client ()) fixed_clock None None 0
                [''A'', ''B''] pss
            \<and> [tagged_event ''A1'' ''A'', tagged_event ''A2'' ''A'', tagged_event ''A3'' ''A'',
               tagged_event ''B1'' ''B'', tagged_event ''B2'' ''B'']
              = concat (map2 (\<lambda>c ps. concat (map (tag_items c) ps)) [''A'', ''B''] pss)"
    unfolding getCalendarClient_alice two_calendars_selection by fastforce
  with two_calendars_getEvents show ?thesis by (rule conjI)
qed

section \<open>Pagination\<close>

text \<open>
  Claim C6. Let a calendar's event query have the pages \<open>ps\<close>, of which only the last
  carries no continuation token. Then the pagination loop for that calendar, whatever has
  been requested and collected before it, returns after exactly as many requests as there
  are pages: the first without a page token, each later one with the continuation token of
  the page before it, all with page size 250. What it appends to the collected events is
  the list of the items of the pages, page after page and within a page in the provider's
  order, every item once and none left out, each with the calendar written into its
  \<open>calendarId\<close>. When the credentials resolve and every selected calendar has its pages,
  \<open>getEvents\<close> returns: after the requests of the selection it has issued exactly these
  requests, calendar by calendar, and its result is the items of all pages of all
  calendars, in that order.
\<close>

theorem pagination_complete:
  "(page_chain lst (queryParams_of now k tmin tmax c) None ps
      \<longrightarrow> (\<exists>reqs.
             fetch_pages lst (queryParams_of now k tmin tmax c) None log allItems
               = Some (log @ reqs,
                       Inr (allItems @
                            map (\<lambda>item. item\<lparr>calendarId := Some c\<rparr>)
                                (concat (map (\<lambda>p. case items p of None \<Rightarrow> [] | Some xs \<Rightarrow> xs)
                                             ps))))
             \<and> length reqs = length ps
             \<and> maxResults (queryParams_of now k tmin tmax c) = 250
             \<and> (\<forall>i < length ps.
                   reqs ! i = EventsList ((queryParams_of now k tmin tmax c)
                     \<lparr>pageToken := (if i = 0 then None else nextPageToken (ps ! (i - 1)))\<rparr>))))
   \<and> (getCalendarClient db uid = Inr client
        \<and> select_calendarIds db P s uid arg = (sel_log, Inr cs)
        \<and> calendar_chains (events_list P client s) now tmin tmax 0 cs pss
      \<longrightarrow> (\<exists>reqss.
             getEvents db P s now uid tmin tmax arg
               = Some (sel_log @ concat reqss,
                       Inr (concat (map2
                              (\<lambda>c ps. map (\<lambda>item. item\<lparr>calendarId := Some c\<rparr>)
                                          (concat (map (\<lambda>p. case items p of None \<Rightarrow> []
                                                              | Some xs \<Rightarrow> xs) ps)))
                              cs pss)))
             \<and> length reqss = length cs
             \<and> (\<forall>j < length cs.
                   length (reqss ! j) = length (pss ! j)
                   \<and> (\<forall>i < length (pss ! j).
                         reqss ! j ! i =
                           EventsList ((queryParams_of now j tmin tmax (cs ! j))
                             \<lparr>pageToken := (if i = 0 then None
                                            else nextPageToken (pss ! j ! (i - 1)))\<rparr>)))))"
proof (intro conjI impI)
  let ?q = "queryParams_of now k tmin tmax c"
  let ?all = "map (\<lambda>item. item\<lparr>calendarId := Some c\<rparr>)
                  (concat (map (\<lambda>p. case items p of None \<Rightarrow> [] | Some xs \<Rightarrow> xs) ps))"
  assume chain: "page_chain lst ?q None ps"
  then have ne: "ps \<noteq> []" by (rule page_chain_nonempty)
  have c: "req_calendarId ?q = c" and size: "maxResults ?q = 250"
    by (simp_all add: queryParams_of_def)
  have "fetch_pages lst ?q None log allItems
          = Some (log @ chain_requests ?q None ps, Inr (allItems @ ?all))"
    using fetch_pages_chain [OF chain, of log allItems] c by (simp add: concat_tag_items)
  with chain_requests_nth [OF ne, where q = ?q and tok = None] size
  have "fetch_pages lst ?q None log allItems
               = Some (log @ chain_requests ?q None ps, Inr (allItems @ ?all))
             \<and> length (chain_requests ?q None ps) = length ps
             \<and> maxResults ?q = 250
             \<and> (\<forall>i < length ps.
                   chain_requests ?q None ps ! i = EventsList (?q
                     \<lparr>pageToken := (if i = 0 then None else nextPageToken (ps ! (i - 1)))\<rparr>))"
    by simp
  then show "\<exists>reqs.
             fetch_pages lst ?q None log allItems = Some (log @ reqs, Inr (allItems @ ?all))
             \<and> length reqs = length ps
             \<and> maxResults ?q = 250
             \<and> (\<forall>i < length ps.
                   reqs ! i = EventsList (?q
                     \<lparr>pageToken := (if i = 0 then None else nextPageToken (ps ! (i - 1)))\<rparr>))"
    by (rule exI)
next
  assume run: "getCalendarClient db uid = Inr client
        \<and> select_calendarIds db P s uid arg = (sel_log, Inr cs)
        \<and> calendar_chains (events_list P client s) now tmin tmax 0 cs pss"
  then have client: "getCalendarClient db uid = Inr client"
    and sel: "select_calendarIds db P s uid arg = (sel_log, Inr cs)"
    and chains: "calendar_chains (events_list P client s) now tmin tmax 0 cs pss"
    by simp_all
  let ?reqss = "calendar_requests now tmin tmax 0 cs pss"
  let ?all = "concat (map2
                (\<lambda>c ps. map (\<lambda>item. item\<lparr>calendarId := Some c\<rparr>)
                            (concat (map (\<lambda>p. case items p of None \<Rightarrow> [] | Some xs \<Rightarrow> xs) ps)))
                cs pss)"
  have result: "getEvents db P s now uid tmin tmax arg = Some (sel_log @ concat ?reqss, Inr ?all)"
    using getEvents_chains [OF client sel chains]
    by (simp add: calendar_major_def concat_tag_items)
  from calendar_requests_nth [OF chains] have len: "length ?reqss = length cs"
    and nth: "\<And>j. j < length cs \<Longrightarrow>
        ?reqss ! j = chain_requests (queryParams_of now j tmin tmax (cs ! j)) None (pss ! j)"
    by simp_all
  have each: "length (?reqss ! j) = length (pss ! j)
                \<and> (\<forall>i < length (pss ! j).
                      ?reqss ! j ! i =
                        EventsList ((queryParams_of now j tmin tmax (cs ! j))
                          \<lparr>pageToken := (if i = 0 then None
                                         else nextPageToken (pss ! j ! (i - 1)))\<rparr>))"
    if j: "j < length cs" for j
  proof -
    from calendar_chains_nth [OF chains j]
    have "page_chain (events_list P client s) (queryParams_of now j tmin tmax (cs ! j)) None (pss ! j)"
      by simp
    then have ne: "pss ! j \<noteq> []" by (rule page_chain_nonempty)
    from chain_requests_nth [OF ne] nth [OF j] show ?thesis by simp
  qed
  from each have all_each: "\<forall>j < length cs.
                   length (?reqss ! j) = length (pss ! j)
                   \<and> (\<forall>i < length (pss ! j).
                         ?reqss ! j ! i =
                           EventsList ((queryParams_of now j tmin tmax (cs ! j))
                             \<lparr>pageToken := (if i = 0 then None
                                            else nextPageToken (pss ! j ! (i - 1)))\<rparr>))"
    by blast
  show "\<exists>reqss.
             getEvents db P s now uid tmin tmax arg = Some (sel_log @ concat reqss, Inr ?all)
             \<and> length reqss = length cs
             \<and> (\<forall>j < length cs.
                   length (reqss ! j) = length (pss ! j)
                   \<and> (\<forall>i < length (pss ! j).
                         reqss ! j ! i =
                           EventsList ((queryParams_of now j tmin tmax (cs ! j))
                             \<lparr>pageToken := (if i = 0 then None
                                            else nextPageToken (pss ! j ! (i - 1)))\<rparr>)))"
    by (rule exI [of _ ?reqss], intro conjI) (rule result, rule len, rule all_each)
qed

theorem pagination_complete_witness:
  "page_chain (events_list long_calendar alice_client ())
     (queryParams_of fixed_clock 0 None None ''L'') None [pageL1, pageL2]
   \<and> fetch_pages (events_list long_calendar alice_client ())
       (queryParams_of fixed_clock 0 None None ''L'') None [] []
     = Some ([sample_query ''L'' None, sample_query ''L'' (Some ''n2'')],
             Inr [tagged_event ''L1'' ''L'', tagged_event ''L2'' ''L'', tagged_event ''L3'' ''L'',
                  tagged_event ''L4'' ''L''])
   \<and> calendar_chains (events_list long_calendar alice_client ()) fixed_clock None None 0
       [''L''] [[pageL1, pageL2]]
   \<and> (\<exists>reqss. getEvents [alice_account] long_calendar () fixed_clock ''alice'' None None
                 (Some (Single ''L''))
               = Some (concat reqss,
                       Inr [tagged_event ''L1'' ''L'', tagged_event ''L2'' ''L'',
                            tagged_event ''L3'' ''L'', tagged_event ''L4'' ''L''])
             \<and> length reqss = 1 \<and> length (reqss ! 0) = 2)"
proof -
  have sel: "select_calendarIds [alice_account] long_calendar () ''alice'' (Some (Single ''L''))
               = ([], Inr [''L''])"
    by (simp add: select_calendarIds_def)
  have chain: "page_chain (events_list long_calendar alice_client ())
     (queryParams_of fixed_clock 0 None None ''L'') None [pageL1, pageL2]"
    by (simp add: long_calendar_def queryParams_of_def pageL1_def pageL2_def truthy_def)
  then have chains: "calendar_chains (events_list long_calendar alice_client ()) fixed_clock
      None None 0 [''L''] [[pageL1, pageL2]]"
    by simp
  have events: "map (\<lambda>item. item\<lparr>calendarId := Some ''L''\<rparr>)
        (concat (map (\<lambda>p. case items p of None \<Rightarrow> [] | Some xs \<Rightarrow> xs) [pageL1, pageL2]))
      = [tagged_event ''L1'' ''L'', tagged_event ''L2'' ''L'', tagged_event ''L3'' ''L'',
         tagged_event ''L4'' ''L'']"
    by (simp add: pageL1_def pageL2_def tagged_event_def)
  note inst = pagination_complete [of "events_list long_calendar alice_client ()" fixed_clock 0
      None None "''L''" "[pageL1, pageL2]" "[]" "[]" "[alice_account]" "''alice''" alice_client
      long_calendar "()" "Some (Single ''L'')" "[]" "[''L'']" "[[pageL1, pageL2]]"]
  from inst chain obtain reqs where
    loop: "fetch_pages (events_list long_calendar alice_client ())
        (queryParams_of fixed_clock 0 None None ''L'') None [] []
      = Some ([] @ reqs,
              Inr ([] @ map (\<lambda>item. item\<lparr>calendarId := Some ''L''\<rparr>)
                 (concat (map (\<lambda>p. case items p of None \<Rightarrow> [] | Some xs \<Rightarrow> xs)
                              [pageL1, pageL2]))))"
    and len: "length reqs = length [pageL1, pageL2]"
    and each: "\<forall>i < length [pageL1, pageL2].
        reqs ! i = EventsList ((queryParams_of fixed_clock 0 None None ''L'')
          \<lparr>pageToken := (if i = 0 then None else nextPageToken ([pageL1, pageL2] ! (i - 1)))\<rparr>)"
    by blast
  from each have "reqs ! 0 = sample_query ''L'' None" "reqs ! 1 = sample_query ''L'' (Some ''n2'')"
    by (simp_all add: sample_query_def pageL1_def)
  with len have "reqs = [sample_query ''L'' None, sample_query ''L'' (Some ''n2'')]"
    by (cases reqs; cases "tl reqs") auto
  with loop have first: "fetch_pages (events_list long_calendar alice_client ())
       (queryParams_of fixed_clock 0 None None ''L'') None [] []
     = Some ([sample_query ''L'' None, sample_query ''L'' (Some ''n2'')],
             Inr [tagged_event ''L1'' ''L'', tagged_event ''L2'' ''L'', tagged_event ''L3'' ''L'',
                  tagged_event ''L4'' ''L''])"
    unfolding events by simp
  from inst getCalendarClient_alice sel chains obtain reqss where
    run: "getEvents [alice_account] long_calendar () fixed_clock ''alice'' None None
            (Some (Single ''L''))
          = Some ([] @ concat reqss,
                  Inr (concat (map2
                         (\<lambda>c ps. map (\<lambda>item. item\<lparr>calendarId := Some c\<rparr>)
                                     (concat (map (\<lambda>p. case items p of None \<Rightarrow> []
                                                         | Some xs \<Rightarrow> xs) ps)))
                         [''L''] [[pageL1, pageL2]])))"
    and lens: "length reqss = length [''L'']"
    and eachs: "\<forall>j < length [''L'']. length (reqss ! j) = length ([[pageL1, pageL2]] ! j)
        \<and> (\<forall>i < length ([[pageL1, pageL2]] ! j).
              reqss ! j ! i =
                EventsList ((queryParams_of fixed_clock j None None ([''L''] ! j))
                  \<lparr>pageToken := (if i = 0 then None
                                 else nextPageToken ([[pageL1, pageL2]] ! j ! (i - 1)))\<rparr>))"
    by blast
  from eachs have two: "length (reqss ! 0) = 2" by simp
  from run have "getEvents [alice_account] long_calendar () fixed_clock ''alice'' None None
            (Some (Single ''L''))
          = Some (concat reqss,
                  Inr (map (\<lambda>item. item\<lparr>calendarId := Some ''L''\<rparr>)
                     (concat (map (\<lambda>p. case items p of None \<Rightarrow> [] | Some xs \<Rightarrow> xs)
                                  [pageL1, pageL2]))))"
    by simp
  with lens two have second: "\<exists>reqss. getEvents [alice_account] long_calendar () fixed_clock
                 ''alice'' None None (Some (Single ''L''))
               = Some (concat reqss,
                       Inr [tagged_event ''L1'' ''L'', tagged_event ''L2'' ''L'',
                            tagged_event ''L3'' ''L'', tagged_event ''L4'' ''L''])
             \<and> length reqss = 1 \<and> length (reqss ! 0) = 2"
    unfolding events by auto
  from chain first chains second show ?thesis by simp
qed

section \<open>Credential resolution\<close>

text \<open>
  Claim C7. \<open>getCalendarClient\<close> uses the first stored row of the user and checks it in
  this order. A user with no row gets \<open>NoLinkedAccount\<close>. A row without an access token
  (null or empty) gets \<open>MissingAccessToken\<close>. A row with an access token whose scope string
  is present (not null, not empty) and contains neither \<open>calendar.readonly\<close> nor
  \<open>calendar.events\<close> gets \<open>InsufficientScope\<close>. A row with an access token whose scope
  string contains at least one of the two yields the client handle, bound to the row's
  token pair.
\<close>

theorem credential_resolution:
  "((\<forall>a \<in> set db. userId a \<noteq> uid) \<longrightarrow> getCalendarClient db uid = Inl NoLinkedAccount)
   \<and> (find (\<lambda>a. userId a = uid) db = Some acct \<and> \<not> truthy (accessToken acct)
        \<longrightarrow> getCalendarClient db uid = Inl MissingAccessToken)
   \<and> (find (\<lambda>a. userId a = uid) db = Some acct \<and> truthy (accessToken acct)
        \<and> scope acct = Some sc \<and> sc \<noteq> []
        \<and> \<not> str_includes sc ''calendar.readonly'' \<and> \<not> str_includes sc ''calendar.events''
        \<longrightarrow> getCalendarClient db uid = Inl InsufficientScope)
   \<and> (find (\<lambda>a. userId a = uid) db = Some acct \<and> accessToken acct = Some tok \<and> tok \<noteq> []
        \<and> scope acct = Some sc
        \<and> (str_includes sc ''calendar.readonly'' \<or> str_includes sc ''calendar.events'')
        \<longrightarrow> getCalendarClient db uid =
              Inr \<lparr>client_access_token = tok, client_refresh_token = refreshToken acct,
                   observer_userId = uid\<rparr>)"
proof (intro conjI impI)
  assume "\<forall>a \<in> set db. userId a \<noteq> uid"
  then have "find (\<lambda>a. userId a = uid) db = None"
    by (simp add: find_None_iff)
  then show "getCalendarClient db uid = Inl NoLinkedAccount"
    by (simp add: getCalendarClient_def select_account_find NoLinkedAccount_def)
next
  assume "find (\<lambda>a. userId a = uid) db = Some acct \<and> \<not> truthy (accessToken acct)"
  then show "getCalendarClient db uid = Inl MissingAccessToken"
    by (auto simp: getCalendarClient_def select_account_find MissingAccessToken_def truthy_def
             split: option.splits)
next
  assume "find (\<lambda>a. userId a = uid) db = Some acct \<and> truthy (accessToken acct)
        \<and> scope acct = Some sc \<and> sc \<noteq> []
        \<and> \<not> str_includes sc ''calendar.readonly'' \<and> \<not> str_includes sc ''calendar.events''"
  then show "getCalendarClient db uid = Inl InsufficientScope"
    by (auto simp: getCalendarClient_def select_account_find InsufficientScope_def truthy_def
             split: option.splits)
next
  assume "find (\<lambda>a. userId a = uid) db = Some acct \<and> accessToken acct = Some tok \<and> tok \<noteq> []
        \<and> scope acct = Some sc
        \<and> (str_includes sc ''calendar.readonly'' \<or> str_includes sc ''calendar.events'')"
  then show "getCalendarClient db uid =
              Inr \<lparr>client_access_token = tok, client_refresh_token = refreshToken acct,
                   observer_userId = uid\<rparr>"
    by (auto simp: getCalendarClient_def select_account_find)
qed

theorem credential_resolution_witness:
  "getCalendarClient [alice_account] ''bob'' = Inl NoLinkedAccount
   \<and> getCalendarClient [alice_account\<lparr>accessToken := None\<rparr>] ''alice'' = Inl MissingAccessToken
   \<and> getCalendarClient [alice_account\<lparr>scope := Some ''email profile''\<rparr>] ''alice''
       = Inl InsufficientScope
   \<and> getCalendarClient [alice_account] ''alice'' = Inr alice_client"
proof (intro conjI)
  show "getCalendarClient [alice_account] ''bob'' = Inl NoLinkedAccount"
    using credential_resolution [of "[alice_account]" "''bob''"]
    by (simp add: alice_account_def)
  show "getCalendarClient [alice_account\<lparr>accessToken := None\<rparr>] ''alice'' = Inl MissingAccessToken"
    using credential_resolution [of "[alice_account\<lparr>accessToken := None\<rparr>]" "''alice''"
        "alice_account\<lparr>accessToken := None\<rparr>"]
    by (simp add: alice_account_def truthy_def)
  show "getCalendarClient [alice_account\<lparr>scope := Some ''email profile''\<rparr>] ''alice''
       = Inl InsufficientScope"
    using credential_resolution [of "[alice_account\<lparr>scope := Some ''email profile''\<rparr>]" "''alice''"
        "alice_account\<lparr>scope := Some ''email profile''\<rparr>" "''email profile''"]
    by (simp add: alice_account_def truthy_def)
  show "getCalendarClient [alice_account] ''alice'' = Inr alice_client"
    using credential_resolution [of "[alice_account]" "''alice''" alice_account
        "''email calendar.events''" "''ya29.a0''"]
    by (simp add: alice_account_def alice_client_def)
qed

section \<open>Token rotation\<close>

text \<open>
  Claim C8. The observer is to write a token column exactly when the rotation event
  reports that token, as its comment at the second test says (update the refresh token
  if provided). It tests \<open>tokens.refresh_token\<close> only after the awaited access-token
  write, on the object that the transport keeps. The transport emits an event that
  reports a new access token and no refresh token and then puts the credential's old
  refresh token into the same object: the observer issues a refresh-token write for a
  field that did not rotate. The transport emits an event that reports a new access
  token and a new refresh token and then does the same: the refresh-token write carries
  the old token, and the rotated one never reaches the store.
\<close>

theorem rotation_observer_reads_late:
  "refresh_token \<lparr>access_token = Some ''ya29.b1'', refresh_token = None\<rparr> = None
   \<and> tokens_handler ''alice''
        \<lparr>access_token = Some ''ya29.b1'', refresh_token = None\<rparr>
        \<lparr>access_token = Some ''ya29.b1'', refresh_token = Some ''1//0g''\<rparr> 200 201
      = [\<lparr>where_userId = ''alice'', set_accessToken = Some ''ya29.b1'', set_refreshToken = None,
           set_updatedAt = Some 200\<rparr>,
         \<lparr>where_userId = ''alice'', set_accessToken = None, set_refreshToken = Some ''1//0g'',
           set_updatedAt = Some 201\<rparr>]
   \<and> tokens_handler ''alice''
        \<lparr>access_token = Some ''ya29.b1'', refresh_token = Some ''1//1h''\<rparr>
        \<lparr>access_token = Some ''ya29.b1'', refresh_token = Some ''1//0g''\<rparr> 200 201
      = [\<lparr>where_userId = ''alice'', set_accessToken = Some ''ya29.b1'', set_refreshToken = None,
           set_updatedAt = Some 200\<rparr>,
         \<lparr>where_userId = ''alice'', set_accessToken = None, set_refreshToken = Some ''1//0g'',
           set_updatedAt = Some 201\<rparr>]
   \<and> on_tokens ''alice''
        \<lparr>access_token = Some ''ya29.b1'', refresh_token = Some ''1//1h''\<rparr>
        \<lparr>access_token = Some ''ya29.b1'', refresh_token = Some ''1//0g''\<rparr> 200 201
        [alice_account]
      = [alice_account\<lparr>accessToken := Some ''ya29.b1'', refreshToken := Some ''1//0g'',
                        updatedAt := 201\<rparr>]"
  by (simp add: tokens_handler_def on_tokens_def truthy_def apply_update_def alice_account_def)

section \<open>The calendar-source identifier\<close>

text \<open>
  Claim C9. When \<open>getEvents\<close> returns events, every returned event carries one
  calendar-source identifier, in its field \<open>calendarId\<close>; the identifier is one of the
  selected calendar identifiers, and an event query for that calendar is among the requests
  that the run issued.
\<close>

theorem calendar_source_tag:
  assumes "getEvents db P s now uid tmin tmax arg = Some (log, Inr evs)"
  shows "\<exists>sel_log cs.
           select_calendarIds db P s uid arg = (sel_log, Inr cs)
           \<and> (\<forall>ev \<in> set evs.
                \<exists>c \<in> set cs. calendarId ev = Some c
                   \<and> (\<exists>q. EventsList q \<in> set log \<and> req_calendarId q = c))"
proof -
  from getEvents_success [OF assms] obtain client sel_log cs pss where
    sel: "select_calendarIds db P s uid arg = (sel_log, Inr cs)"
    and chains: "calendar_chains (events_list P client s) now tmin tmax 0 cs pss"
    and log: "log = sel_log @ concat (calendar_requests now tmin tmax 0 cs pss)"
    and evs: "evs = calendar_major cs pss"
    by blast
  have "\<exists>c \<in> set cs. calendarId ev = Some c
          \<and> (\<exists>q. EventsList q \<in> set log \<and> req_calendarId q = c)"
    if "ev \<in> set evs" for ev
  proof -
    from that evs have "ev \<in> set (calendar_major cs pss)" by simp
    from calendar_major_tagged [OF chains this] obtain c q where
      "c \<in> set cs" "calendarId ev = Some c"
      "EventsList q \<in> set (concat (calendar_requests now tmin tmax 0 cs pss))"
      "req_calendarId q = c"
      by blast
    with log show ?thesis by auto
  qed
  with sel show ?thesis by blast
qed

theorem calendar_source_tag_witness:
  "getEvents [alice_account] two_calendars () fixed_clock ''alice'' None None
       (Some (Multiple [''B'']))
     = Some ([sample_query ''B'' None], Inr [tagged_event ''B1'' ''B'', tagged_event ''B2'' ''B''])
   \<and> calendarId (tagged_event ''B1'' ''B'') = Some ''B''
   \<and> calendarId (tagged_event ''B2'' ''B'') = Some ''B''
   \<and> (\<exists>q. EventsList q = sample_query ''B'' None \<and> req_calendarId q = ''B'')"
proof -
  have sel: "select_calendarIds [alice_account] two_calendars () ''alice'' (Some (Multiple [''B'']))
               = ([], Inr [''B''])"
    by (simp add: select_calendarIds_def)
  have chains: "calendar_chains (events_list two_calendars alice_client ()) fixed_clock None None 0
     [''B''] [[pageB1]]"
    by (simp add: two_calendars_def queryParams_of_def pageB1_def truthy_def)
  have events: "calendar_major [''B''] [[pageB1]] = [tagged_event ''B1'' ''B'', tagged_event ''B2'' ''B'']"
    by (simp add: calendar_major_def tag_items_def pageB1_def tagged_event_def)
  have requests: "calendar_requests fixed_clock None None 0 [''B''] [[pageB1]]
      = [[sample_query ''B'' None]]"
    by (simp add: chain_requests_def sample_query_def)
  have run: "getEvents [alice_account] two_calendars () fixed_clock ''alice'' None None
       (Some (Multiple [''B'']))
     = Some ([sample_query ''B'' None], Inr [tagged_event ''B1'' ''B'', tagged_event ''B2'' ''B''])"
    using getEvents_chains [OF getCalendarClient_alice sel chains]
    unfolding events requests by simp
  from calendar_source_tag [OF run] sel
  have "calendarId (tagged_event ''B1'' ''B'') = Some ''B''
   \<and> calendarId (tagged_event ''B2'' ''B'') = Some ''B''
   \<and> (\<exists>q. EventsList q = sample_query ''B'' None \<and> req_calendarId q = ''B'')"
    by auto
  with run show ?thesis by (rule conjI)
qed

section \<open>An empty explicit selection\<close>

text \<open>
  Claim C10. For a user whose credentials resolve, \<open>getEvents\<close> with the empty list of
  calendar identifiers returns the empty sequence and issues no remote request: neither the
  calendar list (the enumerator) nor an event query.
\<close>

theorem empty_selection_is_honoured:
  assumes "getCalendarClient db uid = Inr client"
  shows "getEvents db P s now uid tmin tmax (Some (Multiple [])) = Some ([], Inr [])"
  using assms by (simp add: getEvents_def getEvents_try_def select_calendarIds_def)

theorem empty_selection_is_honoured_witness:
  "getCalendarClient [alice_account] ''alice'' = Inr alice_client
   \<and> getEvents [alice_account] (rejecting_provider (remote_error 500 ''Backend Error'')) ()
       fixed_clock ''alice'' None None (Some (Multiple [])) = Some ([], Inr [])"
  using empty_selection_is_honoured [OF getCalendarClient_alice,
      of "rejecting_provider (remote_error 500 ''Backend Error'')" "()" fixed_clock None None]
    getCalendarClient_alice
  by simp

end
